theory Spec2Isabelle
  imports Complex_Main "HOL-Library.Sublist" "HOL-Library.List_Lexorder" "HOL-Library.Multiset"
begin

unbundle bit_operations_syntax

section \<open>Python strings\<close>

text \<open>
  A Python \<^verbatim>\<open>str\<close> is a sequence of Unicode code points, so it is modelled as a list of
  natural numbers. \<open>ascii\<close> embeds an ASCII literal.
\<close>

type_synonym pystr = "nat list"

definition ascii :: "string \<Rightarrow> pystr" where
  "ascii s = map of_char s"

text \<open>
  The regular-expression class \<^verbatim>\<open>\d\<close> on \<^verbatim>\<open>str\<close> patterns is the Unicode category Nd.
  Every Nd character lies in a run of ten consecutive code points that starts at the
  character with digit value zero; \<open>nd_zeros\<close> lists these starting points (Unicode 14,
  the table of the CPython 3.11 runtime).
\<close>

definition nd_zeros :: "nat list" where
  "nd_zeros = [48, 1632, 1776, 1984, 2406, 2534, 2662, 2790, 2918, 3046, 3174, 3302, 3430,
     3558, 3664, 3792, 3872, 4160, 4240, 6112, 6160, 6470, 6608, 6784, 6800, 6992, 7088,
     7232, 7248, 42528, 43216, 43264, 43472, 43504, 43600, 44016, 65296, 66720, 68912,
     69734, 69872, 69942, 70096, 70384, 70736, 70864, 71248, 71360, 71472, 71904, 72016,
     72784, 73040, 73120, 92768, 92864, 93008, 120782, 120792, 120802, 120812, 120822,
     123200, 123632, 125264, 130032]"

definition is_digit :: "nat \<Rightarrow> bool" where
  "is_digit c = list_ex (\<lambda>z. z \<le> c \<and> c < z + 10) nd_zeros"

definition digit_value :: "nat \<Rightarrow> nat" where
  "digit_value c = (case filter (\<lambda>z. z \<le> c \<and> c < z + 10) nd_zeros of z # _ \<Rightarrow> c - z | [] \<Rightarrow> 0)"

text \<open>\<^verbatim>\<open>str.isspace\<close>, which is also the class \<^verbatim>\<open>\s\<close> and what \<^verbatim>\<open>split()\<close> and \<^verbatim>\<open>strip()\<close> use.\<close>

definition is_space :: "nat \<Rightarrow> bool" where
  "is_space c = (c \<in> set [9, 10, 11, 12, 13, 28, 29, 30, 31, 32, 133, 160, 5760, 8192, 8193,
     8194, 8195, 8196, 8197, 8198, 8199, 8200, 8201, 8202, 8232, 8233, 8239, 8287, 12288])"

abbreviation (input) comma :: nat where "comma \<equiv> 44"
abbreviation (input) dot :: nat where "dot \<equiv> 46"
abbreviation (input) plus_sign :: nat where "plus_sign \<equiv> 43"

datatype py_error = ValueError | TypeError

text \<open>\<^verbatim>\<open>s.rindex(c)\<close> for a one-character \<^verbatim>\<open>c\<close>: the highest index, or \<^verbatim>\<open>ValueError\<close>.\<close>

fun rindex :: "pystr \<Rightarrow> nat \<Rightarrow> py_error + nat" where
  "rindex [] c = Inl ValueError"
| "rindex (x # xs) c =
     (case rindex xs c of
        Inr i \<Rightarrow> Inr (Suc i)
      | Inl e \<Rightarrow> (if x = c then Inr 0 else Inl e))"

text \<open>\<^verbatim>\<open>s.replace(old, new)\<close>: leftmost, non-overlapping occurrences, scanned left to right.\<close>

function py_replace :: "pystr \<Rightarrow> pystr \<Rightarrow> pystr \<Rightarrow> pystr" where
  "py_replace old new [] = (if old = [] then new else [])"
| "py_replace old new (c # cs) =
     (if old = [] then new @ c # py_replace old new cs
      else if prefix old (c # cs) then new @ py_replace old new (drop (length old) (c # cs))
      else c # py_replace old new cs)"
  by pat_completeness auto
termination
  by (relation "measure (\<lambda>(old, new, s). length s)") (auto simp: neq_Nil_conv)

text \<open>\<^verbatim>\<open>s.split(sep)\<close> for a one-character separator.\<close>

fun split_char :: "nat \<Rightarrow> pystr \<Rightarrow> pystr list" where
  "split_char sep [] = [[]]"
| "split_char sep (c # cs) =
     (if c = sep then [] # split_char sep cs
      else (case split_char sep cs of
              p # ps \<Rightarrow> (c # p) # ps
            | [] \<Rightarrow> [[c]]))"

section \<open>Normalizer\<close>

text \<open>
  \<^verbatim>\<open>float(s)\<close> on the strings that reach it in \<open>normalize_price\<close>: these consist of digits
  and \<^verbatim>\<open>.\<close> only (lemma \<open>price_cleaned_alphabet\<close>). Such a string parses iff it has at
  least one digit and at most one point. The value is kept as the exact decimal the
  text denotes; CPython rounds it to the nearest double. \<open>None\<close> is the \<^verbatim>\<open>ValueError\<close>.
\<close>

fun digits_to_nat :: "pystr \<Rightarrow> nat \<Rightarrow> nat" where
  "digits_to_nat [] acc = acc"
| "digits_to_nat (c # cs) acc = digits_to_nat cs (10 * acc + digit_value c)"

definition py_float :: "pystr \<Rightarrow> rat option" where
  "py_float s =
     (if list_all (\<lambda>c. is_digit c \<or> c = dot) s \<and> length (filter (\<lambda>c. c = dot) s) \<le> 1
         \<and> list_ex is_digit s
      then (let ip = takeWhile (\<lambda>c. c \<noteq> dot) s; fp = drop 1 (dropWhile (\<lambda>c. c \<noteq> dot) s)
            in Some (of_nat (digits_to_nat ip 0) + of_nat (digits_to_nat fp 0) / 10 ^ length fp))
      else None)"

record price_info =
  pvalue :: rat
  currency :: pystr
  original :: pystr

text \<open>The symbols \<^verbatim>\<open>$\<close>, euro, pound, yen and rupee with their codes, as in \<^verbatim>\<open>currency_map\<close>.\<close>

definition currency_map :: "(nat \<times> pystr) list" where
  "currency_map = [(36, ascii ''USD''), (8364, ascii ''EUR''), (163, ascii ''GBP''),
     (165, ascii ''JPY''), (8377, ascii ''INR'')]"

definition currency_code :: "pystr \<Rightarrow> pystr" where
  "currency_code price_str =
     (case find (\<lambda>c. c \<in> set [163, 36, 8364, 165, 8377]) price_str of
        None \<Rightarrow> ascii ''USD''
      | Some c \<Rightarrow> (case map_of currency_map c of Some code \<Rightarrow> code | None \<Rightarrow> [c]))"

text \<open>The separator handling of \<open>normalize_price\<close>, lines 26 to 45, before \<^verbatim>\<open>float\<close>.\<close>

definition price_cleaned :: "pystr \<Rightarrow> py_error + pystr" where
  "price_cleaned price_str =
     (let cleaned = filter (\<lambda>c. is_digit c \<or> c = dot \<or> c = comma) price_str in
      if comma \<in> set cleaned \<and> dot \<in> set cleaned then
        (case rindex cleaned comma of
           Inl e \<Rightarrow> Inl e
         | Inr i \<Rightarrow>
            (case rindex cleaned dot of
               Inl e \<Rightarrow> Inl e
             | Inr j \<Rightarrow>
                 if i > j then Inr (py_replace [comma] [dot] (py_replace [dot] [] cleaned))
                 else Inr (py_replace [comma] [] cleaned)))
      else if comma \<in> set cleaned then
        (let parts = split_char comma cleaned in
         if length parts = 2 \<and> length (parts ! 1) \<le> 2
         then Inr (py_replace [comma] [dot] cleaned)
         else Inr (py_replace [comma] [] cleaned))
      else Inr cleaned)"

definition normalize_price :: "pystr \<Rightarrow> py_error + price_info option" where
  "normalize_price price_str =
     (if price_str = [] then Inr None
      else (case price_cleaned price_str of
              Inl e \<Rightarrow> Inl e
            | Inr cleaned \<Rightarrow>
                (case py_float cleaned of
                   None \<Rightarrow> Inr None
                 | Some v \<Rightarrow> Inr (Some \<lparr>pvalue = v, currency = currency_code price_str,
                                        original = price_str\<rparr>))))"

definition lstrip_char :: "nat \<Rightarrow> pystr \<Rightarrow> pystr" where
  "lstrip_char c s = dropWhile (\<lambda>x. x = c) s"

definition normalize_phone :: "pystr \<Rightarrow> pystr option" where
  "normalize_phone phone =
     (if phone = [] then None
      else
        (let digits = filter (\<lambda>c. is_digit c \<or> c = plus_sign) phone;
             has_plus = prefix [plus_sign] digits;
             digits_only = lstrip_char plus_sign digits
         in if length digits_only < 10 then None
            else (let digits_only' = (if length digits_only = 10 \<and> \<not> has_plus
                                      then 49 # digits_only else digits_only)
                  in if \<not> has_plus then Some (plus_sign # digits_only') else Some digits)))"


subsection \<open>Text cleaning\<close>

text \<open>
  The class \<^verbatim>\<open>\w\<close>: ASCII letters, digits and the underscore; beyond ASCII it is the
  alphanumeric table of the Unicode database, taken here as the parameter \<open>ua\<close>.
\<close>

definition is_word :: "(nat \<Rightarrow> bool) \<Rightarrow> nat \<Rightarrow> bool" where
  "is_word ua c =
     (if c < 128 then (48 \<le> c \<and> c \<le> 57) \<or> (65 \<le> c \<and> c \<le> 90) \<or> (97 \<le> c \<and> c \<le> 122) \<or> c = 95
      else ua c)"

definition entities :: "(pystr \<times> pystr) list" where
  "entities = [(ascii ''&nbsp;'', ascii '' ''), (ascii ''&amp;'', ascii ''&''),
     (ascii ''&lt;'', ascii ''<''), (ascii ''&gt;'', ascii ''>''), (ascii ''&quot;'', [34]),
     (ascii ''&apos;'', [39]), (ascii ''&#39;'', [39]), (ascii ''&hellip;'', ascii ''...''),
     (ascii ''&mdash;'', [8212]), (ascii ''&ndash;'', [8211])]"

text \<open>
  A match of \<^verbatim>\<open>pre cls+ ;\<close> at the head of \<open>s\<close>, as the regular expressions
  \<^verbatim>\<open>&#\d+;\<close> and \<^verbatim>\<open>&\w+;\<close> need it: the run of class characters is greedy and the
  semicolon is in neither class, so only the longest run can match. The result is the
  length of the match.
\<close>

definition entity_match :: "pystr \<Rightarrow> (nat \<Rightarrow> bool) \<Rightarrow> pystr \<Rightarrow> nat option" where
  "entity_match pre cls s =
     (if prefix pre s then
        (let rest = drop (length pre) s; run = takeWhile cls rest
         in if run \<noteq> [] \<and> prefix [59] (dropWhile cls rest)
            then Some (length pre + length run + 1) else None)
      else None)"

text \<open>\<^verbatim>\<open>re.sub(pattern, '', s)\<close> for such a pattern: a match is at least one character long.\<close>

fun re_sub_entity :: "pystr \<Rightarrow> (nat \<Rightarrow> bool) \<Rightarrow> pystr \<Rightarrow> pystr" where
  "re_sub_entity pre cls [] = []"
| "re_sub_entity pre cls (c # cs) =
     (case entity_match pre cls (c # cs) of
        Some n \<Rightarrow> re_sub_entity pre cls (drop (n - 1) cs)
      | None \<Rightarrow> c # re_sub_entity pre cls cs)"

text \<open>\<^verbatim>\<open>s.split()\<close>: the maximal runs of non-whitespace characters.\<close>

fun split_ws :: "pystr \<Rightarrow> pystr \<Rightarrow> pystr list" where
  "split_ws cur [] = (if cur = [] then [] else [rev cur])"
| "split_ws cur (c # cs) =
     (if is_space c then (if cur = [] then split_ws [] cs else rev cur # split_ws [] cs)
      else split_ws (c # cur) cs)"

fun py_join :: "pystr \<Rightarrow> pystr list \<Rightarrow> pystr" where
  "py_join sep [] = []"
| "py_join sep [p] = p"
| "py_join sep (p # ps) = p @ sep @ py_join sep ps"

definition py_strip :: "pystr \<Rightarrow> pystr" where
  "py_strip s = rev (dropWhile is_space (rev (dropWhile is_space s)))"

definition clean_text :: "(nat \<Rightarrow> bool) \<Rightarrow> pystr \<Rightarrow> pystr" where
  "clean_text ua text =
     (if text = [] then []
      else
        (let t1 = foldl (\<lambda>t (entity, replacement). py_replace entity replacement t) text entities;
             t2 = re_sub_entity (ascii ''&#'') is_digit t1;
             t3 = re_sub_entity (ascii ''&'') (is_word ua) t2;
             t4 = py_join (ascii '' '') (split_ws [] t3)
         in py_strip t4))"

subsection \<open>The separator rule in words\<close>

text \<open>
  The rule of the price parser stated without the string operations of the code: the
  comma is the decimal separator when a point is present and the last separator is a
  comma, or when no point is present, the comma occurs once and at most two characters
  follow it.
\<close>

definition comma_is_decimal :: "pystr \<Rightarrow> bool" where
  "comma_is_decimal c =
     (if dot \<in> set c then last (filter (\<lambda>x. x = comma \<or> x = dot) c) = comma
      else length (filter (\<lambda>x. x = comma) c) = 1
           \<and> length (takeWhile (\<lambda>x. x \<noteq> comma) (rev c)) \<le> 2)"

definition separators_resolved :: "pystr \<Rightarrow> pystr" where
  "separators_resolved s =
     (let c = filter (\<lambda>x. is_digit x \<or> x = dot \<or> x = comma) s in
      if comma \<notin> set c then c
      else if comma_is_decimal c
           then map (\<lambda>x. if x = comma then dot else x) (filter (\<lambda>x. x \<noteq> dot) c)
           else filter (\<lambda>x. x \<noteq> comma) c)"

definition price_rule :: "pystr \<Rightarrow> price_info option" where
  "price_rule s =
     map_option (\<lambda>v. \<lparr>pvalue = v, currency = currency_code s, original = s\<rparr>)
       (py_float (separators_resolved s))"

text \<open>
  The rule as the specification words it: with no point present, the comma is the
  decimal separator exactly when two digits follow it.
\<close>

definition spec_comma_is_decimal :: "pystr \<Rightarrow> bool" where
  "spec_comma_is_decimal c =
     (if dot \<in> set c then last (filter (\<lambda>x. x = comma \<or> x = dot) c) = comma
      else length (takeWhile (\<lambda>x. x \<noteq> comma) (rev c)) = 2)"

definition spec_separators_resolved :: "pystr \<Rightarrow> pystr" where
  "spec_separators_resolved s =
     (let c = filter (\<lambda>x. is_digit x \<or> x = dot \<or> x = comma) s in
      if comma \<notin> set c then c
      else if spec_comma_is_decimal c
           then map (\<lambda>x. if x = comma then dot else x) (filter (\<lambda>x. x \<noteq> dot) c)
           else filter (\<lambda>x. x \<noteq> comma) c)"

definition spec_price_rule :: "pystr \<Rightarrow> price_info option" where
  "spec_price_rule s =
     map_option (\<lambda>v. \<lparr>pvalue = v, currency = currency_code s, original = s\<rparr>)
       (py_float (spec_separators_resolved s))"

section \<open>JSON values and their serialisation\<close>

text \<open>
  Records are dictionaries of JSON-serialisable values: they come from the page as JSON
  and snapshots are written as JSON. A dictionary is an association list in insertion
  order; \<open>is_dict\<close> says that its keys are distinct. A float is represented by the text
  \<^verbatim>\<open>float.__repr__\<close> gives it, which is all the serialisation uses.
\<close>

datatype json =
    JNull
  | JBool bool
  | JInt int
  | JFloat pystr
  | JStr pystr
  | JList "json list"
  | JDict "(pystr \<times> json) list"

type_synonym pyrecord = "(pystr \<times> json) list"

definition is_dict :: "('k \<times> 'v) list \<Rightarrow> bool" where
  "is_dict d = distinct (map fst d)"

text \<open>\<^verbatim>\<open>k in d\<close>, \<^verbatim>\<open>d.get(k)\<close> and \<^verbatim>\<open>d[k] = v\<close> (a new key goes to the end, an old one keeps its place).\<close>

definition dict_has :: "('k \<times> 'v) list \<Rightarrow> 'k \<Rightarrow> bool" where
  "dict_has d k = (map_of d k \<noteq> None)"

definition dict_get :: "('k \<times> 'v) list \<Rightarrow> 'k \<Rightarrow> 'v option" where
  "dict_get d k = map_of d k"

fun dict_set :: "('k \<times> 'v) list \<Rightarrow> 'k \<Rightarrow> 'v \<Rightarrow> ('k \<times> 'v) list" where
  "dict_set [] k v = [(k, v)]"
| "dict_set ((k', v') # d) k v = (if k' = k then (k, v) # d else (k', v') # dict_set d k v)"

text \<open>\<^verbatim>\<open>d[k]\<close>, which raises \<^verbatim>\<open>KeyError\<close> on a missing key.\<close>

datatype key_error = KeyError

definition dict_index :: "('k \<times> 'v) list \<Rightarrow> 'k \<Rightarrow> key_error + 'v" where
  "dict_index d k = (case map_of d k of None \<Rightarrow> Inl KeyError | Some v \<Rightarrow> Inr v)"

text \<open>\<^verbatim>\<open>str(n)\<close> for an integer.\<close>

function py_str_nat :: "nat \<Rightarrow> pystr" where
  "py_str_nat n = (if n < 10 then [48 + n] else py_str_nat (n div 10) @ [48 + n mod 10])"
  by pat_completeness auto
termination
  by (relation "measure id") auto

declare py_str_nat.simps [simp del]

definition py_str_int :: "int \<Rightarrow> pystr" where
  "py_str_int i = (if i < 0 then 45 # py_str_nat (nat (- i)) else py_str_nat (nat i))"

definition hex_digit :: "nat \<Rightarrow> nat" where
  "hex_digit n = (if n < 10 then 48 + n else 87 + n)"

definition hex4 :: "nat \<Rightarrow> pystr" where
  "hex4 n = [hex_digit ((n div 4096) mod 16), hex_digit ((n div 256) mod 16),
             hex_digit ((n div 16) mod 16), hex_digit (n mod 16)]"

text \<open>
  The string encoder of \<^verbatim>\<open>json.dumps\<close> with its default \<^verbatim>\<open>ensure_ascii=True\<close>: quote and
  backslash are escaped, the printable ASCII characters stand for themselves, everything
  else becomes a \<^verbatim>\<open>\uXXXX\<close> escape (a surrogate pair beyond the basic plane).
\<close>

definition escape_char :: "nat \<Rightarrow> pystr" where
  "escape_char c =
     (if c = 34 then [92, 34]
      else if c = 92 then [92, 92]
      else if c = 10 then [92, 110]
      else if c = 13 then [92, 114]
      else if c = 9 then [92, 116]
      else if c = 8 then [92, 98]
      else if c = 12 then [92, 102]
      else if 32 \<le> c \<and> c \<le> 126 then [c]
      else if c < 65536 then 92 # 117 # hex4 c
      else (let n = c - 65536
            in 92 # 117 # hex4 (55296 + (n div 1024) mod 1024)
               @ 92 # 117 # hex4 (56320 + n mod 1024)))"

definition encode_str :: "pystr \<Rightarrow> pystr" where
  "encode_str s = 34 # concat (map escape_char s) @ [34]"

text \<open>
  \<^verbatim>\<open>json.dumps(v, sort_keys=True)\<close> with the default separators: the items of every
  dictionary are written in the order of their keys (the order of \<^verbatim>\<open>str\<close>, that is the
  lexicographic order of the code points).
\<close>

function json_dumps :: "json \<Rightarrow> pystr" where
  "json_dumps JNull = ascii ''null''"
| "json_dumps (JBool b) = (if b then ascii ''true'' else ascii ''false'')"
| "json_dumps (JInt i) = py_str_int i"
| "json_dumps (JFloat r) = r"
| "json_dumps (JStr s) = encode_str s"
| "json_dumps (JList xs) = 91 # py_join (ascii '', '') (map json_dumps xs) @ [93]"
| "json_dumps (JDict kvs) =
     123 # py_join (ascii '', '')
             (map (\<lambda>(k, v). encode_str k @ ascii '': '' @ json_dumps v) (sort_key fst kvs))
         @ [125]"
  by pat_completeness auto
termination
proof (relation "measure size")
  fix kvs :: "(pystr \<times> json) list" and x k v
  assume "x \<in> set (sort_key fst kvs)" and "(k, v) = x"
  then have "(k, v) \<in> set kvs" by simp
  then have "size v < Suc (size_list (size_prod (\<lambda>_. 0) size) kvs)"
    by (induction kvs) auto
  then show "(v, JDict kvs) \<in> measure size" by simp
next
  fix xs :: "json list" and x
  assume "x \<in> set xs"
  then have "size x < Suc (size_list size xs)"
    by (induction xs) auto
  then show "(x, JList xs) \<in> measure size" by simp
qed simp

text \<open>\<^verbatim>\<open>s.encode()\<close>: UTF-8.\<close>

definition utf8_char :: "nat \<Rightarrow> nat list" where
  "utf8_char c =
     (if c < 128 then [c]
      else if c < 2048 then [192 + c div 64, 128 + c mod 64]
      else if c < 65536 then [224 + c div 4096, 128 + (c div 64) mod 64, 128 + c mod 64]
      else [240 + c div 262144, 128 + (c div 4096) mod 64, 128 + (c div 64) mod 64,
            128 + c mod 64])"

definition utf8_encode :: "pystr \<Rightarrow> nat list" where
  "utf8_encode s = concat (map utf8_char s)"

section \<open>MD5\<close>

text \<open>
  \<^verbatim>\<open>hashlib.md5(b).hexdigest()\<close> after RFC 1321. A 32-bit word is a natural number below
  \<open>2 ^ 32\<close>; addition wraps and the complement is taken within 32 bits. Each step of a
  round is given as in the RFC by the index of the message word, the rotation and the
  additive constant.
\<close>

definition add32 :: "nat \<Rightarrow> nat \<Rightarrow> nat" where
  "add32 x y = (x + y) mod 4294967296"

definition not32 :: "nat \<Rightarrow> nat" where
  "not32 x = 4294967295 - x"

definition rotl32 :: "nat \<Rightarrow> nat \<Rightarrow> nat" where
  "rotl32 s x = (x * 2 ^ s) mod 4294967296 + x div 2 ^ (32 - s)"

definition round1 :: "(nat \<times> nat \<times> nat) list" where
  "round1 = [(0, 7, 0xd76aa478), (1, 12, 0xe8c7b756), (2, 17, 0x242070db),
     (3, 22, 0xc1bdceee), (4, 7, 0xf57c0faf), (5, 12, 0x4787c62a), (6, 17, 0xa8304613),
     (7, 22, 0xfd469501), (8, 7, 0x698098d8), (9, 12, 0x8b44f7af), (10, 17, 0xffff5bb1),
     (11, 22, 0x895cd7be), (12, 7, 0x6b901122), (13, 12, 0xfd987193), (14, 17, 0xa679438e),
     (15, 22, 0x49b40821)]"

definition round2 :: "(nat \<times> nat \<times> nat) list" where
  "round2 = [(1, 5, 0xf61e2562), (6, 9, 0xc040b340), (11, 14, 0x265e5a51),
     (0, 20, 0xe9b6c7aa), (5, 5, 0xd62f105d), (10, 9, 0x02441453), (15, 14, 0xd8a1e681),
     (4, 20, 0xe7d3fbc8), (9, 5, 0x21e1cde6), (14, 9, 0xc33707d6), (3, 14, 0xf4d50d87),
     (8, 20, 0x455a14ed), (13, 5, 0xa9e3e905), (2, 9, 0xfcefa3f8), (7, 14, 0x676f02d9),
     (12, 20, 0x8d2a4c8a)]"

definition round3 :: "(nat \<times> nat \<times> nat) list" where
  "round3 = [(5, 4, 0xfffa3942), (8, 11, 0x8771f681), (11, 16, 0x6d9d6122),
     (14, 23, 0xfde5380c), (1, 4, 0xa4beea44), (4, 11, 0x4bdecfa9), (7, 16, 0xf6bb4b60),
     (10, 23, 0xbebfbc70), (13, 4, 0x289b7ec6), (0, 11, 0xeaa127fa), (3, 16, 0xd4ef3085),
     (6, 23, 0x04881d05), (9, 4, 0xd9d4d039), (12, 11, 0xe6db99e5), (15, 16, 0x1fa27cf8),
     (2, 23, 0xc4ac5665)]"

definition round4 :: "(nat \<times> nat \<times> nat) list" where
  "round4 = [(0, 6, 0xf4292244), (7, 10, 0x432aff97), (14, 15, 0xab9423a7),
     (5, 21, 0xfc93a039), (12, 6, 0x655b59c3), (3, 10, 0x8f0ccc92), (10, 15, 0xffeff47d),
     (1, 21, 0x85845dd1), (8, 6, 0x6fa87e4f), (15, 10, 0xfe2ce6e0), (6, 15, 0xa3014314),
     (13, 21, 0x4e0811a1), (4, 6, 0xf7537e82), (11, 10, 0xbd3af235), (2, 15, 0x2ad7d2bb),
     (9, 21, 0xeb86d391)]"

definition md5_F :: "nat \<Rightarrow> nat \<Rightarrow> nat \<Rightarrow> nat" where
  "md5_F b c d = (b AND c) OR (not32 b AND d)"

definition md5_G :: "nat \<Rightarrow> nat \<Rightarrow> nat \<Rightarrow> nat" where
  "md5_G b c d = (d AND b) OR (not32 d AND c)"

definition md5_H :: "nat \<Rightarrow> nat \<Rightarrow> nat \<Rightarrow> nat" where
  "md5_H b c d = b XOR c XOR d"

definition md5_I :: "nat \<Rightarrow> nat \<Rightarrow> nat \<Rightarrow> nat" where
  "md5_I b c d = c XOR (b OR not32 d)"

type_synonym md5_state = "nat \<times> nat \<times> nat \<times> nat"

fun md5_steps ::
  "(nat \<Rightarrow> nat \<Rightarrow> nat \<Rightarrow> nat) \<Rightarrow> nat list \<Rightarrow> (nat \<times> nat \<times> nat) list \<Rightarrow> md5_state \<Rightarrow> md5_state"
where
  "md5_steps f m [] st = st"
| "md5_steps f m ((g, s, k) # rest) (a, b, c, d) =
     md5_steps f m rest
       (d, add32 b (rotl32 s (add32 (add32 (add32 (f b c d) a) k) (m ! g))), b, c)"

text \<open>The bytes of a padded message, four at a time, as little-endian words.\<close>

fun le_words :: "nat list \<Rightarrow> nat list" where
  "le_words (b0 # b1 # b2 # b3 # rest) =
     (b0 + 256 * b1 + 65536 * b2 + 16777216 * b3) # le_words rest"
| "le_words _ = []"

definition md5_block :: "md5_state \<Rightarrow> nat list \<Rightarrow> md5_state" where
  "md5_block st m =
     (case st of (a0, b0, c0, d0) \<Rightarrow>
       (case md5_steps md5_I m round4 (md5_steps md5_H m round3
                (md5_steps md5_G m round2 (md5_steps md5_F m round1 st))) of
          (a, b, c, d) \<Rightarrow> (add32 a0 a, add32 b0 b, add32 c0 c, add32 d0 d)))"

fun md5_blocks :: "md5_state \<Rightarrow> nat list \<Rightarrow> md5_state" where
  "md5_blocks st (w0 # w1 # w2 # w3 # w4 # w5 # w6 # w7 # w8 # w9 # w10 # w11 # w12 # w13
                  # w14 # w15 # rest) =
     md5_blocks
       (md5_block st [w0, w1, w2, w3, w4, w5, w6, w7, w8, w9, w10, w11, w12, w13, w14, w15])
       rest"
| "md5_blocks st _ = st"

definition md5_pad :: "nat list \<Rightarrow> nat list" where
  "md5_pad msg =
     (let n = length msg; z = (119 - n mod 64) mod 64; bits = 8 * n
      in msg @ [128] @ replicate z 0
         @ map (\<lambda>i. (bits div 256 ^ i) mod 256) [0, 1, 2, 3, 4, 5, 6, 7])"

definition le_bytes :: "nat \<Rightarrow> nat list" where
  "le_bytes n = [n mod 256, (n div 256) mod 256, (n div 65536) mod 256, (n div 16777216) mod 256]"

definition hex_byte :: "nat \<Rightarrow> pystr" where
  "hex_byte b = [hex_digit (b div 16), hex_digit (b mod 16)]"

definition md5_hexdigest :: "nat list \<Rightarrow> pystr" where
  "md5_hexdigest msg =
     (case md5_blocks (0x67452301, 0xefcdab89, 0x98badcfe, 0x10325476) (le_words (md5_pad msg)) of
        (a, b, c, d) \<Rightarrow> concat (map hex_byte (le_bytes a @ le_bytes b @ le_bytes c @ le_bytes d)))"

section \<open>Deduplicator\<close>

text \<open>
  The dictionary comprehension of \<open>generate_id\<close>: the key fields that the record has, in
  the order of the key-field list, each with the record's value.
\<close>

definition key_data :: "pyrecord \<Rightarrow> pystr list \<Rightarrow> pyrecord" where
  "key_data record key_fields =
     foldl (\<lambda>d k. case dict_get record k of Some v \<Rightarrow> dict_set d k v | None \<Rightarrow> d) []
       (filter (dict_has record) key_fields)"

definition generate_id :: "pyrecord \<Rightarrow> pystr list \<Rightarrow> pystr" where
  "generate_id record key_fields =
     (let key_str = json_dumps (JDict (key_data record key_fields))
      in md5_hexdigest (utf8_encode key_str))"

definition generate_fingerprint :: "pyrecord \<Rightarrow> pystr" where
  "generate_fingerprint record =
     (let record_str = json_dumps (JDict record)
      in md5_hexdigest (utf8_encode record_str))"

text \<open>The loop of \<open>deduplicate\<close>: its state is the set of seen identities and the list kept so far.\<close>

definition dedup_step :: "pystr list \<Rightarrow> pystr set \<times> pyrecord list \<Rightarrow> pyrecord \<Rightarrow> pystr set \<times> pyrecord list" where
  "dedup_step key_fields st record =
     (case st of (seen_ids, unique_records) \<Rightarrow>
        (let record_id = generate_id record key_fields
         in if record_id \<notin> seen_ids then (insert record_id seen_ids, unique_records @ [record])
            else (seen_ids, unique_records)))"

definition deduplicate :: "pyrecord list \<Rightarrow> pystr list \<Rightarrow> pyrecord list" where
  "deduplicate records key_fields = snd (foldl (dedup_step key_fields) ({}, []) records)"

text \<open>
  The last sentence of the invariant as the specification words it: the two records have
  identical values for the key fields present in both.
\<close>

definition spec_same_shared_key_values :: "pyrecord \<Rightarrow> pyrecord \<Rightarrow> pystr list \<Rightarrow> bool" where
  "spec_same_shared_key_values r1 r2 key_fields =
     list_all (\<lambda>k. dict_has r1 k \<and> dict_has r2 k \<longrightarrow> dict_get r1 k = dict_get r2 k) key_fields"

section \<open>Scrape results\<close>

text \<open>
  A scrape result has the categories of \<^verbatim>\<open>ScrapeResultSchema\<close>: lists of records for
  \<^verbatim>\<open>images\<close>, \<^verbatim>\<open>products\<close> and \<^verbatim>\<open>assets\<close>, one record for \<^verbatim>\<open>contacts\<close> and for \<^verbatim>\<open>text\<close>,
  a list of URLs for \<^verbatim>\<open>crawl\<close>. A category that is not a key of the result is \<open>None\<close>.
\<close>

record scrape_result =
  images :: "pyrecord list option"
  products :: "pyrecord list option"
  contacts :: "pyrecord option"
  assets :: "pyrecord list option"
  crawl :: "pystr list option"
  text_record :: "pyrecord option"

definition empty_result :: scrape_result where
  "empty_result = \<lparr>images = None, products = None, contacts = None, assets = None,
                    crawl = None, text_record = None\<rparr>"

text \<open>\<^verbatim>\<open>result[data_type]\<close> and \<^verbatim>\<open>result[data_type] = records\<close> for the list categories that change detection goes through.\<close>

definition list_category :: "scrape_result \<Rightarrow> pystr \<Rightarrow> pyrecord list option" where
  "list_category res data_type =
     (if data_type = ascii ''products'' then products res
      else if data_type = ascii ''images'' then images res
      else if data_type = ascii ''assets'' then assets res
      else None)"

definition set_list_category :: "scrape_result \<Rightarrow> pystr \<Rightarrow> pyrecord list \<Rightarrow> scrape_result" where
  "set_list_category res data_type records =
     (if data_type = ascii ''products'' then res\<lparr>products := Some records\<rparr>
      else if data_type = ascii ''images'' then res\<lparr>images := Some records\<rparr>
      else if data_type = ascii ''assets'' then res\<lparr>assets := Some records\<rparr>
      else res)"

section \<open>Change detector\<close>

record snapshot =
  timestamp :: int
  job_id :: pystr
  data :: scrape_result
  record_ids :: "(pystr \<times> pystr list) list"

text \<open>An entry of \<^verbatim>\<open>updated\<close>: the keys \<^verbatim>\<open>id\<close>, \<^verbatim>\<open>previous\<close> and \<^verbatim>\<open>current\<close>.\<close>

record update =
  upd_id :: pystr
  upd_previous :: pyrecord
  upd_current :: pyrecord

record change_set =
  new :: scrape_result
  updated :: "(pystr \<times> update list) list"
  removed :: "(pystr \<times> pystr list) list"

definition default_key_fields :: "(pystr \<times> pystr list) list" where
  "default_key_fields = [(ascii ''products'', [ascii ''title'', ascii ''url'']),
     (ascii ''images'', [ascii ''url'']), (ascii ''assets'', [ascii ''url''])]"

text \<open>
  A Python \<^verbatim>\<open>set\<close> is kept as a list without repetitions. The order in which CPython
  iterates over a set is not specified; the model iterates in the order of the list.
\<close>

definition py_set :: "'a list \<Rightarrow> 'a list" where
  "py_set xs = remdups xs"

text \<open>
  The key fields of a category are called \<open>fields'\<close> below (\<open>fields\<close> is taken by the
  record package).
\<close>

text \<open>The dictionary \<^verbatim>\<open>current_ids\<close>: a later record with the same identity replaces an earlier one.\<close>

definition current_ids_of :: "pystr list \<Rightarrow> pyrecord list \<Rightarrow> (pystr \<times> pyrecord) list" where
  "current_ids_of fields' current_records =
     foldl (\<lambda>d r. dict_set d (generate_id r fields') r) [] current_records"

text \<open>The stored identities of the category, or those of the previous records when none are stored.\<close>

definition prev_ids_set_of :: "pystr list \<Rightarrow> pyrecord list \<Rightarrow> pystr list \<Rightarrow> pystr list" where
  "prev_ids_set_of fields' previous_records stored_ids =
     (let prev_ids_set = py_set stored_ids
      in if prev_ids_set = [] then py_set (map (\<lambda>r. generate_id r fields') previous_records)
         else prev_ids_set)"

text \<open>\<^verbatim>\<open>[current_ids[id] for id in new_ids]\<close>.\<close>

fun index_all :: "('k \<times> 'v) list \<Rightarrow> 'k list \<Rightarrow> key_error + 'v list" where
  "index_all d [] = Inr []"
| "index_all d (k # ks) =
     (case dict_index d k of
        Inl e \<Rightarrow> Inl e
      | Inr v \<Rightarrow> (case index_all d ks of Inl e \<Rightarrow> Inl e | Inr vs \<Rightarrow> Inr (v # vs)))"

text \<open>
  The loop over \<^verbatim>\<open>common_ids\<close>. The previous record is the first one with the identity;
  \<^verbatim>\<open>if prev_record\<close> also skips an empty record.
\<close>

fun updated_loop ::
  "pystr list \<Rightarrow> (pystr \<times> pyrecord) list \<Rightarrow> pyrecord list \<Rightarrow> pystr list \<Rightarrow> key_error + update list"
where
  "updated_loop fields' current_ids previous_records [] = Inr []"
| "updated_loop fields' current_ids previous_records (record_id # rest) =
     (case dict_index current_ids record_id of
        Inl e \<Rightarrow> Inl e
      | Inr current_record \<Rightarrow>
          (let prev_record = find (\<lambda>r. generate_id r fields' = record_id) previous_records;
               entry =
                 (case prev_record of
                    None \<Rightarrow> []
                  | Some p \<Rightarrow>
                      if p \<noteq> [] \<and> generate_fingerprint current_record \<noteq> generate_fingerprint p
                      then [\<lparr>upd_id = record_id, upd_previous = p, upd_current = current_record\<rparr>]
                      else [])
           in case updated_loop fields' current_ids previous_records rest of
                Inl e \<Rightarrow> Inl e
              | Inr us \<Rightarrow> Inr (entry @ us)))"

text \<open>The body of the loop over the data types, lines 134 to 180: new, removed and updated of one category.\<close>

definition diff_category ::
  "pystr list \<Rightarrow> pyrecord list \<Rightarrow> pyrecord list \<Rightarrow> pystr list
     \<Rightarrow> key_error + (pyrecord list \<times> pystr list \<times> update list)"
where
  "diff_category fields' current_records previous_records stored_ids =
     (let current_ids = current_ids_of fields' current_records;
          prev_ids_set = prev_ids_set_of fields' previous_records stored_ids;
          current_ids_set = map fst current_ids;
          new_ids = filter (\<lambda>i. i \<notin> set prev_ids_set) current_ids_set;
          removed_ids = filter (\<lambda>i. i \<notin> set current_ids_set) prev_ids_set;
          common_ids = filter (\<lambda>i. i \<in> set prev_ids_set) current_ids_set
      in case index_all current_ids new_ids of
           Inl e \<Rightarrow> Inl e
         | Inr new_records \<Rightarrow>
             (case updated_loop fields' current_ids previous_records common_ids of
                Inl e \<Rightarrow> Inl e
              | Inr upd \<Rightarrow> Inr (new_records, removed_ids, upd)))"

text \<open>\<^verbatim>\<open>previous_data.get(data_type, [])\<close> and \<^verbatim>\<open>previous_ids.get(data_type, [])\<close>.\<close>

definition previous_records_of :: "snapshot \<Rightarrow> pystr \<Rightarrow> pyrecord list" where
  "previous_records_of previous data_type =
     (case list_category (data previous) data_type of None \<Rightarrow> [] | Some rs \<Rightarrow> rs)"

definition stored_ids_of :: "snapshot \<Rightarrow> pystr \<Rightarrow> pystr list" where
  "stored_ids_of previous data_type =
     (case dict_get (record_ids previous) data_type of None \<Rightarrow> [] | Some ids \<Rightarrow> ids)"

definition detect_step ::
  "(pystr \<times> pystr list) list \<Rightarrow> scrape_result \<Rightarrow> snapshot \<Rightarrow> key_error + change_set \<Rightarrow> pystr
     \<Rightarrow> key_error + change_set"
where
  "detect_step key_fields current previous acc data_type =
     (case acc of
        Inl e \<Rightarrow> Inl e
      | Inr changes \<Rightarrow>
          (case list_category current data_type of
             None \<Rightarrow> Inr changes
           | Some current_records \<Rightarrow>
               (let previous_records = previous_records_of previous data_type;
                    stored_ids = stored_ids_of previous data_type
                in case dict_get key_fields data_type of
                     None \<Rightarrow> Inr changes
                   | Some fields' \<Rightarrow>
                       (case diff_category fields' current_records previous_records stored_ids of
                          Inl e \<Rightarrow> Inl e
                        | Inr (new_records, removed_ids, upd) \<Rightarrow>
                            Inr (changes\<lparr>new := set_list_category (new changes) data_type new_records,
                                          removed := dict_set (removed changes) data_type removed_ids,
                                          updated := dict_set (updated changes) data_type upd\<rparr>)))))"

text \<open>\<^verbatim>\<open>if not key_fields\<close> holds for \<^verbatim>\<open>None\<close> and for the empty dictionary.\<close>

definition effective_key_fields :: "(pystr \<times> pystr list) list option \<Rightarrow> (pystr \<times> pystr list) list" where
  "effective_key_fields key_fields =
     (case key_fields of
        None \<Rightarrow> default_key_fields
      | Some k \<Rightarrow> if k = [] then default_key_fields else k)"

definition data_types :: "pystr list" where
  "data_types = [ascii ''products'', ascii ''images'', ascii ''assets'']"

definition detect_changes ::
  "scrape_result \<Rightarrow> snapshot option \<Rightarrow> (pystr \<times> pystr list) list option \<Rightarrow> key_error + change_set"
where
  "detect_changes current previous key_fields =
     (case previous of
        None \<Rightarrow> Inr \<lparr>new = current, updated = [], removed = []\<rparr>
      | Some prev \<Rightarrow>
          foldl (detect_step (effective_key_fields key_fields) current prev)
            (Inr \<lparr>new = empty_result, updated = [], removed = []\<rparr>) data_types)"

text \<open>The three entries of a change set for one category.\<close>

definition view :: "change_set \<Rightarrow> pystr \<Rightarrow> pyrecord list option \<times> pystr list option \<times> update list option" where
  "view c dt = (list_category (new c) dt, dict_get (removed c) dt, dict_get (updated c) dt)"

subsection \<open>The example of the specification\<close>

text \<open>
  The previous snapshot holds the products A and B; the current run yields A with a
  changed price and C.
\<close>

definition product_A :: pyrecord where
  "product_A = [(ascii ''title'', JStr (ascii ''A'')), (ascii ''url'', JStr (ascii ''1'')),
                (ascii ''price'', JStr (ascii ''1''))]"

definition product_A' :: pyrecord where
  "product_A' = [(ascii ''title'', JStr (ascii ''A'')), (ascii ''url'', JStr (ascii ''1'')),
                 (ascii ''price'', JStr (ascii ''2''))]"

definition product_B :: pyrecord where
  "product_B = [(ascii ''title'', JStr (ascii ''B'')), (ascii ''url'', JStr (ascii ''2''))]"

definition product_C :: pyrecord where
  "product_C = [(ascii ''title'', JStr (ascii ''C'')), (ascii ''url'', JStr (ascii ''3''))]"

definition example_previous :: snapshot where
  "example_previous = \<lparr>timestamp = 0, job_id = ascii ''job'',
     data = empty_result\<lparr>products := Some [product_A, product_B]\<rparr>, record_ids = []\<rparr>"

definition example_current :: scrape_result where
  "example_current = empty_result\<lparr>products := Some [product_A', product_C]\<rparr>"

section \<open>Schemas\<close>

text \<open>
  The schemas are pydantic models. Validating a record against a model takes each
  declared field in turn: a missing field gets its default or is an error when it has
  none; \<^verbatim>\<open>None\<close> is accepted for an \<^verbatim>\<open>Optional\<close> field only; any other value is validated
  against the declared type and then passed to the validator function of the field.
  Fields that the model does not declare are kept when its \<^verbatim>\<open>Config\<close> says
  \<^verbatim>\<open>extra = 'allow'\<close> and are dropped otherwise (pydantic's default is to ignore them).

  How pydantic validates a value against a declared type (which values of another type
  it converts) differs between its major versions. This part of the library is the
  parameter \<open>pt\<close>; \<open>strict_types\<close>, which accepts exactly the values of the declared
  type, agrees with every version on such values and is used to evaluate examples.
\<close>

datatype ftype = TStr | TInt | TListStr

record pydantic_types =
  str_validator :: "json \<Rightarrow> pystr option"
  int_validator :: "json \<Rightarrow> int option"
  list_validator :: "json \<Rightarrow> json list option"

definition strict_types :: pydantic_types where
  "strict_types =
     \<lparr>str_validator = (\<lambda>v. case v of JStr s \<Rightarrow> Some s | _ \<Rightarrow> None),
      int_validator = (\<lambda>v. case v of JInt i \<Rightarrow> Some i | _ \<Rightarrow> None),
      list_validator = (\<lambda>v. case v of JList xs \<Rightarrow> Some xs | _ \<Rightarrow> None)\<rparr>"

fun those_strs :: "pydantic_types \<Rightarrow> json list \<Rightarrow> json list option" where
  "those_strs pt [] = Some []"
| "those_strs pt (x # xs) =
     (case str_validator pt x of
        None \<Rightarrow> None
      | Some s \<Rightarrow> (case those_strs pt xs of None \<Rightarrow> None | Some ys \<Rightarrow> Some (JStr s # ys)))"

definition type_validate :: "pydantic_types \<Rightarrow> ftype \<Rightarrow> json \<Rightarrow> json option" where
  "type_validate pt t v =
     (case t of
        TStr \<Rightarrow> map_option JStr (str_validator pt v)
      | TInt \<Rightarrow> map_option JInt (int_validator pt v)
      | TListStr \<Rightarrow> (case list_validator pt v of None \<Rightarrow> None | Some xs \<Rightarrow> map_option JList (those_strs pt xs)))"

text \<open>The error of one field: missing, \<^verbatim>\<open>None\<close> not allowed, wrong type, or the \<^verbatim>\<open>ValueError\<close> of its validator.\<close>

datatype field_error = Missing | NoneNotAllowed | WrongType | Invalid pystr

record field_spec =
  fname :: pystr
  ftype :: ftype
  allow_none :: bool
  fdefault :: "json option"
  fvalidator :: "json \<Rightarrow> pystr + json"

record schema =
  sfields :: "field_spec list"
  extra_allow :: bool

definition validate_field :: "pydantic_types \<Rightarrow> field_spec \<Rightarrow> pyrecord \<Rightarrow> field_error + json" where
  "validate_field pt sp record =
     (case dict_get record (fname sp) of
        None \<Rightarrow> (case fdefault sp of None \<Rightarrow> Inl Missing | Some d \<Rightarrow> Inr d)
      | Some v \<Rightarrow>
          if v = JNull then (if allow_none sp then Inr JNull else Inl NoneNotAllowed)
          else (case type_validate pt (ftype sp) v of
                  None \<Rightarrow> Inl WrongType
                | Some v' \<Rightarrow> (case fvalidator sp v' of Inl msg \<Rightarrow> Inl (Invalid msg) | Inr v'' \<Rightarrow> Inr v'')))"

text \<open>
  \<^verbatim>\<open>Schema(**record).dict()\<close>: the errors of all fields, or the dictionary of the declared
  fields in their order followed by the extra fields that the model keeps.
\<close>

definition schema_dict ::
  "pydantic_types \<Rightarrow> schema \<Rightarrow> pyrecord \<Rightarrow> (pystr \<times> field_error) list + pyrecord"
where
  "schema_dict pt sch record =
     (let results = map (\<lambda>sp. (fname sp, validate_field pt sp record)) (sfields sch);
          errs = concat (map (\<lambda>(n, r). case r of Inl e \<Rightarrow> [(n, e)] | Inr v \<Rightarrow> []) results);
          vals = concat (map (\<lambda>(n, r). case r of Inl e \<Rightarrow> [] | Inr v \<Rightarrow> [(n, v)]) results);
          extras = (if extra_allow sch
                    then filter (\<lambda>(k, v). k \<notin> set (map fname (sfields sch))) record
                    else [])
      in if errs \<noteq> [] then Inl errs else Inr (vals @ extras))"

subsection \<open>The validator functions of the fields\<close>

definition no_validator :: "json \<Rightarrow> pystr + json" where
  "no_validator v = Inr v"

definition title_must_exist :: "json \<Rightarrow> pystr + json" where
  "title_must_exist j =
     (case j of
        JStr v \<Rightarrow>
          if v = [] \<or> length (py_strip v) = 0 then Inl (ascii ''Title is required'')
          else if length v > 500 then Inl (ascii ''Title too long (max 500 characters)'')
          else Inr (JStr (py_strip v))
      | _ \<Rightarrow> Inr j)"

definition validate_price :: "json \<Rightarrow> pystr + json" where
  "validate_price j =
     (case j of
        JStr v \<Rightarrow>
          if v \<noteq> [] \<and> \<not> list_ex is_digit v then Inl (ascii ''Price must contain numbers'')
          else Inr j
      | _ \<Rightarrow> Inr j)"

definition url_must_be_valid :: "json \<Rightarrow> pystr + json" where
  "url_must_be_valid j =
     (case j of
        JStr v \<Rightarrow>
          if v = [] \<or> \<not> prefix (ascii ''http'') v
          then Inl (ascii ''URL must be a valid HTTP/HTTPS URL'')
          else Inr j
      | _ \<Rightarrow> Inr j)"

text \<open>
  The pattern \<^verbatim>\<open>^[^\s@]+@[^\s@]+\.[^\s@]+$\<close> under \<^verbatim>\<open>re.match\<close>: a local part, one \<^verbatim>\<open>@\<close>, and a
  rest with a point that is neither its first nor its last character, all without
  whitespace; \<^verbatim>\<open>$\<close> also matches before one final newline.
\<close>

definition email_body :: "pystr \<Rightarrow> bool" where
  "email_body b =
     (let local_part = takeWhile (\<lambda>c. c \<noteq> 64) b; rest = drop (Suc (length local_part)) b
      in list_all (\<lambda>c. \<not> is_space c) b \<and> length (filter (\<lambda>c. c = 64) b) = 1
         \<and> local_part \<noteq> [] \<and> dot \<in> set (butlast (tl rest)))"

definition email_match :: "pystr \<Rightarrow> bool" where
  "email_match v = (email_body v \<or> (v \<noteq> [] \<and> last v = 10 \<and> email_body (butlast v)))"

definition validate_email :: "json \<Rightarrow> pystr + json" where
  "validate_email j =
     (case j of
        JList items \<Rightarrow>
          (case find (\<lambda>i. case i of JStr v \<Rightarrow> \<not> email_match v | _ \<Rightarrow> False) items of
             Some (JStr v) \<Rightarrow> Inl (ascii ''Invalid email format: '' @ v)
           | _ \<Rightarrow> Inr j)
      | _ \<Rightarrow> Inr j)"

definition limit_items :: "json \<Rightarrow> pystr + json" where
  "limit_items j = (case j of JList v \<Rightarrow> Inr (JList (take 100 v)) | _ \<Rightarrow> Inr j)"

subsection \<open>The models\<close>

definition required_str :: "string \<Rightarrow> (json \<Rightarrow> pystr + json) \<Rightarrow> field_spec" where
  "required_str name f =
     \<lparr>fname = ascii name, ftype = TStr, allow_none = False, fdefault = None, fvalidator = f\<rparr>"

definition optional_field :: "string \<Rightarrow> ftype \<Rightarrow> (json \<Rightarrow> pystr + json) \<Rightarrow> field_spec" where
  "optional_field name t f =
     \<lparr>fname = ascii name, ftype = t, allow_none = True, fdefault = Some JNull, fvalidator = f\<rparr>"

definition defaulted_field :: "string \<Rightarrow> ftype \<Rightarrow> json \<Rightarrow> (json \<Rightarrow> pystr + json) \<Rightarrow> field_spec" where
  "defaulted_field name t d f =
     \<lparr>fname = ascii name, ftype = t, allow_none = False, fdefault = Some d, fvalidator = f\<rparr>"

definition ProductSchema :: schema where
  "ProductSchema =
     \<lparr>sfields = [required_str ''title'' title_must_exist,
                 optional_field ''price'' TStr validate_price,
                 optional_field ''image'' TStr no_validator,
                 optional_field ''link'' TStr no_validator,
                 optional_field ''description'' TStr no_validator],
      extra_allow = True\<rparr>"

definition ImageSchema :: schema where
  "ImageSchema =
     \<lparr>sfields = [required_str ''url'' url_must_be_valid,
                 optional_field ''alt'' TStr no_validator,
                 optional_field ''width'' TInt no_validator,
                 optional_field ''height'' TInt no_validator],
      extra_allow = False\<rparr>"

definition ContactSchema :: schema where
  "ContactSchema =
     \<lparr>sfields = [defaulted_field ''emails'' TListStr (JList []) validate_email,
                 defaulted_field ''phones'' TListStr (JList []) no_validator,
                 defaulted_field ''socials'' TListStr (JList []) no_validator],
      extra_allow = False\<rparr>"

definition TextSchema :: schema where
  "TextSchema =
     \<lparr>sfields = [defaulted_field ''title'' TStr (JStr []) no_validator,
                 defaulted_field ''meta'' TStr (JStr []) no_validator,
                 defaulted_field ''headings'' TListStr (JList []) limit_items,
                 defaulted_field ''paragraphs'' TListStr (JList []) limit_items],
      extra_allow = False\<rparr>"

definition AssetSchema :: schema where
  "AssetSchema =
     \<lparr>sfields = [required_str ''filename'' no_validator,
                 required_str ''url'' url_must_be_valid,
                 required_str ''type'' no_validator,
                 optional_field ''size'' TStr no_validator],
      extra_allow = False\<rparr>"

section \<open>Validator\<close>

text \<open>An entry of the error log: the keys \<^verbatim>\<open>type\<close>, \<^verbatim>\<open>index\<close> (for the list categories), \<^verbatim>\<open>error\<close> and \<^verbatim>\<open>data\<close>.\<close>

record error_entry =
  etype :: pystr
  eindex :: "nat option"
  eerror :: "(pystr \<times> field_error) list"
  edata :: pyrecord

text \<open>
  The state of a \<^verbatim>\<open>Validator\<close> object. The threshold is a float in the code; the model
  keeps it and the error ratio as exact rationals.
\<close>

record validator =
  error_threshold :: rat
  errors :: "error_entry list"

text \<open>\<^verbatim>\<open>Validator()\<close> with the default threshold.\<close>

definition new_validator :: validator where
  "new_validator = \<lparr>error_threshold = 1 / 2, errors = []\<rparr>"

text \<open>
  The loop of \<open>validate_products\<close>, \<open>validate_images\<close> and \<open>validate_assets\<close>, which differ
  in the model and in the \<^verbatim>\<open>type\<close> of their log entries only.
\<close>

fun validate_records ::
  "pydantic_types \<Rightarrow> schema \<Rightarrow> pystr \<Rightarrow> nat \<Rightarrow> pyrecord list \<Rightarrow> validator
     \<Rightarrow> pyrecord list \<times> validator"
where
  "validate_records pt sch ty idx [] v = ([], v)"
| "validate_records pt sch ty idx (r # rs) v =
     (case schema_dict pt sch r of
        Inr d \<Rightarrow>
          (case validate_records pt sch ty (Suc idx) rs v of (validated, v') \<Rightarrow> (d # validated, v'))
      | Inl e \<Rightarrow>
          validate_records pt sch ty (Suc idx) rs
            (v\<lparr>errors := errors v @ [\<lparr>etype = ty, eindex = Some idx, eerror = e, edata = r\<rparr>]\<rparr>))"

definition validate_products ::
  "pydantic_types \<Rightarrow> pyrecord list \<Rightarrow> validator \<Rightarrow> pyrecord list \<times> validator" where
  "validate_products pt products' v = validate_records pt ProductSchema (ascii ''product'') 0 products' v"

definition validate_images ::
  "pydantic_types \<Rightarrow> pyrecord list \<Rightarrow> validator \<Rightarrow> pyrecord list \<times> validator" where
  "validate_images pt images' v = validate_records pt ImageSchema (ascii ''image'') 0 images' v"

definition validate_assets ::
  "pydantic_types \<Rightarrow> pyrecord list \<Rightarrow> validator \<Rightarrow> pyrecord list \<times> validator" where
  "validate_assets pt assets' v = validate_records pt AssetSchema (ascii ''asset'') 0 assets' v"

definition validate_single ::
  "pydantic_types \<Rightarrow> schema \<Rightarrow> pystr \<Rightarrow> pyrecord \<Rightarrow> validator \<Rightarrow> pyrecord option \<times> validator" where
  "validate_single pt sch ty r v =
     (case schema_dict pt sch r of
        Inr d \<Rightarrow> (Some d, v)
      | Inl e \<Rightarrow> (None, v\<lparr>errors := errors v @ [\<lparr>etype = ty, eindex = None, eerror = e, edata = r\<rparr>]\<rparr>))"

definition validate_contacts ::
  "pydantic_types \<Rightarrow> pyrecord \<Rightarrow> validator \<Rightarrow> pyrecord option \<times> validator" where
  "validate_contacts pt contacts' v = validate_single pt ContactSchema (ascii ''contact'') contacts' v"

definition validate_text ::
  "pydantic_types \<Rightarrow> pyrecord \<Rightarrow> validator \<Rightarrow> pyrecord option \<times> validator" where
  "validate_text pt text' v = validate_single pt TextSchema (ascii ''text'') text' v"

text \<open>
  One list category of \<open>validate_result\<close>: skipped when the key is missing or the list is
  empty, else validated and counted with all its records.
\<close>

definition list_part ::
  "(pyrecord list \<Rightarrow> validator \<Rightarrow> pyrecord list \<times> validator) \<Rightarrow> pyrecord list option
     \<Rightarrow> nat \<times> validator \<Rightarrow> pyrecord list option \<times> nat \<times> validator"
where
  "list_part validate records st =
     (case st of (total_records, v) \<Rightarrow>
        (case records of
           None \<Rightarrow> (None, total_records, v)
         | Some rs \<Rightarrow>
             if rs = [] then (None, total_records, v)
             else (case validate rs v of
                     (validated, v') \<Rightarrow> (Some validated, total_records + length rs, v'))))"

text \<open>
  The \<^verbatim>\<open>contacts\<close> and \<^verbatim>\<open>text\<close> category: skipped when missing or empty, stored and counted
  only when the record is valid.
\<close>

definition single_part ::
  "(pyrecord \<Rightarrow> validator \<Rightarrow> pyrecord option \<times> validator) \<Rightarrow> pyrecord option
     \<Rightarrow> nat \<times> validator \<Rightarrow> pyrecord option \<times> nat \<times> validator"
where
  "single_part validate record st =
     (case st of (total_records, v) \<Rightarrow>
        (case record of
           None \<Rightarrow> (None, total_records, v)
         | Some r \<Rightarrow>
             if r = [] then (None, total_records, v)
             else (case validate r v of
                     (None, v') \<Rightarrow> (None, total_records, v')
                   | (Some d, v') \<Rightarrow>
                       if d \<noteq> [] then (Some d, total_records + 1, v')
                       else (None, total_records, v'))))"

text \<open>
  Lines 120 to 149 of \<open>validate_result\<close>: the dictionary \<^verbatim>\<open>validated\<close>, the count
  \<^verbatim>\<open>total_records\<close> and the validator with its extended error log, as they are when the
  threshold is checked.
\<close>

definition validate_categories ::
  "pydantic_types \<Rightarrow> validator \<Rightarrow> scrape_result \<Rightarrow> scrape_result \<times> nat \<times> validator" where
  "validate_categories pt v result =
     (case list_part (validate_products pt) (products result) (0, v) of (ps, t1, v1) \<Rightarrow>
      case list_part (validate_images pt) (images result) (t1, v1) of (is, t2, v2) \<Rightarrow>
      case single_part (validate_contacts pt) (contacts result) (t2, v2) of (cs, t3, v3) \<Rightarrow>
      case single_part (validate_text pt) (text_record result) (t3, v3) of (ts, t4, v4) \<Rightarrow>
      case list_part (validate_assets pt) (assets result) (t4, v4) of (as, t5, v5) \<Rightarrow>
        (\<lparr>images = is, products = ps, contacts = cs, assets = as, crawl = crawl result,
          text_record = ts\<rparr>, t5, v5))"

text \<open>The \<^verbatim>\<open>ValueError\<close> of the threshold check; its message is made of the ratio and the two counts.\<close>

datatype threshold_error = ThresholdExceeded nat nat

text \<open>\<open>validate_result\<close>: \<^verbatim>\<open>invalid_records\<close> is read from the error log at line 122, before any category is validated.\<close>

definition validate_result ::
  "pydantic_types \<Rightarrow> validator \<Rightarrow> scrape_result \<Rightarrow> (threshold_error + scrape_result) \<times> validator"
where
  "validate_result pt v result =
     (let invalid_records = length (errors v)
      in case validate_categories pt v result of
           (validated, total_records, v') \<Rightarrow>
             if total_records > 0
                \<and> of_nat invalid_records / of_nat total_records > error_threshold v'
             then (Inl (ThresholdExceeded invalid_records total_records), v')
             else (Inr validated, v'))"

section \<open>Properties of the normalizer\<close>

subsection \<open>String operations\<close>

lemma py_replace_delete: "py_replace [c] [] s = filter (\<lambda>x. x \<noteq> c) s"
  by (induction s) auto

lemma py_replace_char: "py_replace [c] [d] s = map (\<lambda>x. if x = c then d else x) s"
  by (induction s) auto

lemma rindex_Inl_iff: "(\<exists>e. rindex s c = Inl e) \<longleftrightarrow> c \<notin> set s"
  by (induction s) (auto split: sum.splits)

lemma rindex_Inr_ex: "c \<in> set s \<Longrightarrow> \<exists>i. rindex s c = Inr i"
  using rindex_Inl_iff [of s c] by (cases "rindex s c") auto

lemma last_filter_other:
  assumes "a \<in> set s" "b \<notin> set s"
  shows "last (filter (\<lambda>x. x = a \<or> x = b) s) = a"
proof -
  have ne: "filter (\<lambda>x. x = a \<or> x = b) s \<noteq> []"
    using assms(1) by (auto simp: filter_empty_conv)
  from last_in_set [OF ne] assms(2) show ?thesis by auto
qed

lemma rindex_later:
  "rindex s a = Inr i \<Longrightarrow> rindex s b = Inr j \<Longrightarrow> a \<noteq> b \<Longrightarrow>
     (i > j \<longleftrightarrow> last (filter (\<lambda>x. x = a \<or> x = b) s) = a)"
proof (induction s arbitrary: i j)
  case Nil
  then show ?case by simp
next
  case (Cons x xs)
  show ?case
  proof (cases "a \<in> set xs")
    case ain: True
    then obtain i' where i': "rindex xs a = Inr i'" using rindex_Inr_ex by blast
    show ?thesis
    proof (cases "b \<in> set xs")
      case True
      then obtain j' where j': "rindex xs b = Inr j'" using rindex_Inr_ex by blast
      have ne: "filter (\<lambda>x. x = a \<or> x = b) xs \<noteq> []"
        using ain by (auto simp: filter_empty_conv)
      from Cons.prems i' j' have "i = Suc i'" "j = Suc j'" by auto
      with Cons.IH [OF i' j' Cons.prems(3)] ne show ?thesis by auto
    next
      case False
      then have "\<exists>e. rindex xs b = Inl e" using rindex_Inl_iff by blast
      with Cons.prems i' have "i = Suc i'" "j = 0" by (auto split: if_splits)
      moreover have "last (filter (\<lambda>x. x = a \<or> x = b) xs) = a"
        using last_filter_other [OF ain False] .
      moreover have "filter (\<lambda>x. x = a \<or> x = b) xs \<noteq> []"
        using ain by (auto simp: filter_empty_conv)
      ultimately show ?thesis by auto
    qed
  next
    case anin: False
    then have ea: "\<exists>e. rindex xs a = Inl e" using rindex_Inl_iff by blast
    with Cons.prems have xa: "x = a" "i = 0" by (auto split: if_splits)
    show ?thesis
    proof (cases "b \<in> set xs")
      case True
      have "last (filter (\<lambda>x. x = b \<or> x = a) xs) = b"
        using last_filter_other [OF True anin] .
      moreover have "(\<lambda>x. x = b \<or> x = a) = (\<lambda>x. x = a \<or> x = b)" by auto
      moreover have "filter (\<lambda>x. x = a \<or> x = b) xs \<noteq> []"
        using True by (auto simp: filter_empty_conv)
      ultimately show ?thesis using xa Cons.prems(3) by auto
    next
      case False
      then have "\<exists>e. rindex xs b = Inl e" using rindex_Inl_iff by blast
      with Cons.prems xa show ?thesis by (auto split: if_splits)
    qed
  qed
qed

lemma split_char_no_sep: "sep \<notin> set s \<Longrightarrow> split_char sep s = [s]"
  by (induction s) auto

lemma split_char_length: "length (split_char sep s) = Suc (length (filter (\<lambda>x. x = sep) s))"
  by (induction s) (auto split: list.splits)

lemma split_char_second:
  "length (filter (\<lambda>x. x = sep) s) = 1 \<Longrightarrow>
     length (split_char sep s ! 1) = length (takeWhile (\<lambda>x. x \<noteq> sep) (rev s))"
proof (induction s)
  case Nil
  then show ?case by simp
next
  case (Cons x xs)
  show ?case
  proof (cases "x = sep")
    case True
    with Cons.prems have "sep \<notin> set xs" by (auto simp: filter_empty_conv)
    then have "takeWhile (\<lambda>x. x \<noteq> sep) (rev xs @ [sep]) = rev xs @ takeWhile (\<lambda>x. x \<noteq> sep) [sep]"
      by (intro takeWhile_append2) auto
    with \<open>sep \<notin> set xs\<close> show ?thesis using True by (simp add: split_char_no_sep)
  next
    case False
    with Cons.prems have one: "length (filter (\<lambda>x. x = sep) xs) = 1" by simp
    have "sep \<in> set xs"
    proof (rule ccontr)
      assume "sep \<notin> set xs"
      then have "filter (\<lambda>x. x = sep) xs = []" by (auto simp: filter_empty_conv)
      with one show False by simp
    qed
    then have tw: "takeWhile (\<lambda>x. x \<noteq> sep) (rev xs @ [x]) = takeWhile (\<lambda>x. x \<noteq> sep) (rev xs)"
      by (intro takeWhile_append1 [where x = sep]) auto
    from split_char_length [of sep xs] one have "length (split_char sep xs) = Suc (Suc 0)"
      by simp
    then obtain p q where pq: "split_char sep xs = [p, q]"
      by (auto simp: length_Suc_conv)
    with Cons.IH [OF one] False tw show ?thesis by simp
  qed
qed

lemma price_cleaned_eq: "price_cleaned s = Inr (separators_resolved s)"
proof -
  define c where "c = filter (\<lambda>x. is_digit x \<or> x = dot \<or> x = comma) s"
  show ?thesis
  proof (cases "comma \<in> set c")
    case False
    then show ?thesis
      by (simp add: price_cleaned_def separators_resolved_def c_def [symmetric] Let_def)
  next
    case cin: True
    show ?thesis
    proof (cases "dot \<in> set c")
      case True
      obtain i where i: "rindex c comma = Inr i" using rindex_Inr_ex [OF cin] by blast
      obtain j where j: "rindex c dot = Inr j" using rindex_Inr_ex [OF True] by blast
      have "(i > j) = (last (filter (\<lambda>x. x = comma \<or> x = dot) c) = comma)"
        using rindex_later [OF i j] by simp
      then show ?thesis using cin True i j
        by (simp add: price_cleaned_def separators_resolved_def c_def [symmetric] Let_def
            comma_is_decimal_def py_replace_delete py_replace_char)
    next
      case False
      have nd: "filter (\<lambda>x. x \<noteq> dot) c = c"
        using False by (auto simp: filter_id_conv)
      have "(length (split_char comma c) = 2 \<and> length (split_char comma c ! 1) \<le> 2)
            = comma_is_decimal c"
      proof (cases "length (filter (\<lambda>x. x = comma) c) = 1")
        case True
        then show ?thesis using False split_char_second [OF True]
          by (simp add: comma_is_decimal_def split_char_length)
      next
        case False
        then show ?thesis using \<open>dot \<notin> set c\<close>
          by (simp add: comma_is_decimal_def split_char_length)
      qed
      then show ?thesis using cin False nd
        by (simp add: price_cleaned_def separators_resolved_def c_def [symmetric] Let_def
            py_replace_delete py_replace_char)
    qed
  qed
qed

lemma price_cleaned_alphabet:
  "list_all (\<lambda>c. is_digit c \<or> c = dot) (separators_resolved s)"
  by (auto simp: separators_resolved_def Let_def list_all_iff)

lemma py_float_Nil: "py_float [] = None"
  by (simp add: py_float_def)

lemma normalize_price_eq: "normalize_price s = Inr (price_rule s)"
proof (cases "s = []")
  case True
  then show ?thesis
    by (simp add: normalize_price_def price_rule_def separators_resolved_def py_float_Nil)
next
  case False
  then show ?thesis
    by (simp add: normalize_price_def price_rule_def price_cleaned_eq split: option.splits)
qed

lemma normalize_price_usd:
  "normalize_price (ascii ''$19.99'') =
     Inr (Some \<lparr>pvalue = 1999 / 100, currency = ascii ''USD'', original = ascii ''$19.99''\<rparr>)"
  by (simp add: normalize_price_def price_cleaned_def py_float_def currency_code_def
      currency_map_def digit_value_def ascii_def is_digit_def nd_zeros_def)

lemma normalize_price_eur:
  "normalize_price (8364 # ascii ''15,50'') =
     Inr (Some \<lparr>pvalue = 31 / 2, currency = ascii ''EUR'', original = 8364 # ascii ''15,50''\<rparr>)"
  by (simp add: normalize_price_def price_cleaned_def py_float_def currency_code_def
      currency_map_def digit_value_def ascii_def is_digit_def nd_zeros_def)

lemma normalize_price_gbp:
  "normalize_price (163 # ascii ''1.234,56'') =
     Inr (Some \<lparr>pvalue = 30864 / 25, currency = ascii ''GBP'',
                 original = 163 # ascii ''1.234,56''\<rparr>)"
  by (simp add: normalize_price_def price_cleaned_def py_float_def currency_code_def
      currency_map_def digit_value_def ascii_def is_digit_def nd_zeros_def)

lemma normalize_price_tbd: "normalize_price (ascii ''TBD'') = Inr None"
  by (simp add: normalize_price_def price_cleaned_def py_float_def ascii_def is_digit_def
      nd_zeros_def)

text \<open>
  C2, as amended. For every input string the price parser returns what the separator rule
  gives: all characters except digits, point and comma are dropped; with both separators
  present the later one is the decimal separator and the other is stripped; with only
  commas present the comma is the decimal separator when it occurs once and at most two
  characters follow it, and every comma is stripped otherwise; the result is the parsed
  value with the currency code of the first currency symbol of the original string (USD
  when there is none), and absent when the cleaned text does not parse. The four examples
  of the specification hold.
\<close>

theorem normalize_price_rule:
  "normalize_price s = Inr (price_rule s)
   \<and> normalize_price (ascii ''$19.99'') =
       Inr (Some \<lparr>pvalue = 1999 / 100, currency = ascii ''USD'', original = ascii ''$19.99''\<rparr>)
   \<and> normalize_price (8364 # ascii ''15,50'') =
       Inr (Some \<lparr>pvalue = 31 / 2, currency = ascii ''EUR'', original = 8364 # ascii ''15,50''\<rparr>)
   \<and> normalize_price (163 # ascii ''1.234,56'') =
       Inr (Some \<lparr>pvalue = 30864 / 25, currency = ascii ''GBP'',
                   original = 163 # ascii ''1.234,56''\<rparr>)
   \<and> normalize_price (ascii ''TBD'') = Inr None"
  using normalize_price_eq normalize_price_usd normalize_price_eur normalize_price_gbp
    normalize_price_tbd by simp

text \<open>
  C2 as the specification states it fails: in \<^verbatim>\<open>15,5\<close> one digit follows the only comma, so
  the stated rule strips the comma and reads 155, while the code reads 15.5.
\<close>

theorem normalize_price_spec_counterexample:
  "normalize_price (ascii ''15,5'') =
     Inr (Some \<lparr>pvalue = 31 / 2, currency = ascii ''USD'', original = ascii ''15,5''\<rparr>)
   \<and> spec_price_rule (ascii ''15,5'') =
     Some \<lparr>pvalue = 155, currency = ascii ''USD'', original = ascii ''15,5''\<rparr>"
  by (simp add: normalize_price_def price_cleaned_def spec_price_rule_def
      spec_separators_resolved_def spec_comma_is_decimal_def py_float_def currency_code_def
      currency_map_def digit_value_def ascii_def is_digit_def nd_zeros_def)

text \<open>
  C3 at the input \<^verbatim>\<open>1+2+3+4+5+\<close>: five digits remain after stripping, yet the code does not
  return absent; it counts the interior plus signs, takes the text for a ten-digit number,
  prefixes 1 and returns a string that is not a plus sign followed by digits.
\<close>

theorem normalize_phone_interior_plus:
  "length (filter is_digit (ascii ''1+2+3+4+5+'')) = 5
   \<and> normalize_phone (ascii ''1+2+3+4+5+'') = Some (ascii ''+11+2+3+4+5+'')"
  by (simp add: normalize_phone_def ascii_def is_digit_def nd_zeros_def lstrip_char_def)

text \<open>
  C9. Normalization is total. The price parser never raises: the only operations that can
  raise are \<^verbatim>\<open>rindex\<close>, which is guarded, and \<^verbatim>\<open>float\<close>, whose error is caught; it returns
  absent exactly when the cleaned text does not parse. The phone normalizer returns
  absent or a string that starts with a plus sign, and text cleaning maps the empty text
  to the empty text. All three are total functions.
\<close>

theorem normalization_total:
  "(\<exists>r. normalize_price s = Inr r)
   \<and> (normalize_price s = Inr None) = (py_float (separators_resolved s) = None)
   \<and> (normalize_phone s = None \<or> (\<exists>d. normalize_phone s = Some (plus_sign # d)))
   \<and> clean_text ua [] = []"
proof -
  have p: "normalize_price s = Inr (price_rule s)" by (rule normalize_price_eq)
  have "normalize_phone s = None \<or> (\<exists>d. normalize_phone s = Some (plus_sign # d))"
    by (auto simp: normalize_phone_def Let_def prefix_def)
  then show ?thesis using p by (simp add: price_rule_def clean_text_def)
qed

section \<open>Properties of the deduplicator\<close>

lemma map_of_dict_set: "map_of (dict_set d k v) = (map_of d)(k \<mapsto> v)"
  by (induction d) (auto simp: fun_eq_iff)

lemma map_of_permutation:
  assumes "is_dict r" and "mset r' = mset r"
  shows "map_of r' = map_of r"
proof -
  have "mset (map fst r') = mset (map fst r)" using assms(2) by (metis mset_map)
  then have "distinct (map fst r')"
    using assms(1) by (metis is_dict_def mset_eq_imp_distinct_iff)
  moreover have "set r' = set r" using assms(2) by (rule mset_eq_setD)
  ultimately show ?thesis
    using assms(1) by (simp add: is_dict_def map_of_inject_set)
qed

lemma key_data_cong:
  assumes "\<And>k. k \<in> set K \<Longrightarrow> map_of r1 k = map_of r2 k"
  shows "key_data r1 K = key_data r2 K"
proof -
  have f: "filter (dict_has r1) K = filter (dict_has r2) K"
    using assms by (intro filter_cong) (auto simp: dict_has_def)
  have "foldl (\<lambda>d k. case dict_get r1 k of Some v \<Rightarrow> dict_set d k v | None \<Rightarrow> d) []
          (filter (dict_has r2) K)
      = foldl (\<lambda>d k. case dict_get r2 k of Some v \<Rightarrow> dict_set d k v | None \<Rightarrow> d) []
          (filter (dict_has r2) K)"
    using assms by (intro foldl_cong) (auto simp: dict_get_def)
  then show ?thesis by (simp add: key_data_def f)
qed

lemma generate_id_cong:
  assumes "\<And>k. k \<in> set K \<Longrightarrow> map_of r1 k = map_of r2 k"
  shows "generate_id r1 K = generate_id r2 K"
  using key_data_cong [of K r1 r2] assms by (simp add: generate_id_def)

text \<open>
  C4, as amended. For every record \<open>r\<close>, every permutation \<open>r'\<close> of its fields, every
  key-field list \<open>K\<close> and every field \<open>k\<close> that is not a key field, the identity is
  unchanged: the permuted record and the record with \<open>k\<close> set to any value have the
  identity of \<open>r\<close>. Two records in which every key field is absent from both or present
  in both with the same value have the same identity.
\<close>

theorem generate_id_invariant:
  assumes "is_dict r" and "mset r' = mset r" and "k \<notin> set K"
    and "\<forall>f\<in>set K. dict_get r1 f = dict_get r2 f"
  shows "generate_id r' K = generate_id r K
       \<and> generate_id (dict_set r k v) K = generate_id r K
       \<and> generate_id r1 K = generate_id r2 K"
proof (intro conjI)
  show "generate_id r' K = generate_id r K"
    using map_of_permutation [OF assms(1,2)] by (intro generate_id_cong) simp
  show "generate_id (dict_set r k v) K = generate_id r K"
    using assms(3) by (intro generate_id_cong) (auto simp: map_of_dict_set)
  show "generate_id r1 K = generate_id r2 K"
    using assms(4) by (intro generate_id_cong) (simp add: dict_get_def)
qed

lemma dedup_seen:
  "fst (foldl (dedup_step K) ({}, []) rs) = (\<lambda>r. generate_id r K) ` set rs"
  by (induction rs rule: rev_induct) (auto simp: dedup_step_def Let_def split: prod.splits)

lemma dedup_snoc:
  "deduplicate (rs @ [r]) K =
     deduplicate rs K @ (if generate_id r K \<in> (\<lambda>x. generate_id x K) ` set rs then [] else [r])"
proof -
  obtain seen uniq where st: "foldl (dedup_step K) ({}, []) rs = (seen, uniq)"
    by (cases "foldl (dedup_step K) ({}, []) rs")
  with dedup_seen [of K rs] have "seen = (\<lambda>x. generate_id x K) ` set rs" by simp
  with st show ?thesis by (simp add: deduplicate_def dedup_step_def Let_def)
qed

lemma deduplicate_index:
  "deduplicate rs K =
     map (\<lambda>i. rs ! i)
       (filter (\<lambda>i. list_all (\<lambda>j. generate_id (rs ! j) K \<noteq> generate_id (rs ! i) K) [0..<i])
          [0..<length rs])"
proof (induction rs rule: rev_induct)
  case Nil
  show ?case by (simp add: deduplicate_def)
next
  case (snoc r rs)
  let ?n = "length rs"
  let ?P = "\<lambda>xs i. list_all (\<lambda>j. generate_id (xs ! j) K \<noteq> generate_id (xs ! i) K) [0..<i]"
  have old: "filter (?P (rs @ [r])) [0..<?n] = filter (?P rs) [0..<?n]"
    by (intro filter_cong) (auto simp: list_all_iff nth_append)
  have m: "map (\<lambda>i. (rs @ [r]) ! i) (filter (?P rs) [0..<?n]) = map (\<lambda>i. rs ! i) (filter (?P rs) [0..<?n])"
    by (intro map_cong) (auto simp: nth_append)
  have "?P (rs @ [r]) ?n \<longleftrightarrow> (\<forall>j<?n. generate_id (rs ! j) K \<noteq> generate_id r K)"
    by (auto simp: list_all_iff nth_append)
  also have "\<dots> \<longleftrightarrow> (\<forall>x\<in>set rs. generate_id x K \<noteq> generate_id r K)"
    by (simp add: all_set_conv_all_nth)
  also have "\<dots> \<longleftrightarrow> generate_id r K \<notin> (\<lambda>x. generate_id x K) ` set rs"
    by (metis (mono_tags, lifting) imageE imageI)
  finally have last:
    "?P (rs @ [r]) ?n \<longleftrightarrow> generate_id r K \<notin> (\<lambda>x. generate_id x K) ` set rs" .
  show ?case
    using snoc.IH old m last by (simp add: dedup_snoc)
qed

lemma deduplicate_subseq: "subseq (deduplicate rs K) rs"
proof (induction rs rule: rev_induct)
  case Nil
  show ?case by (simp add: deduplicate_def)
next
  case (snoc r rs)
  then show ?case
    by (auto simp: dedup_snoc intro: subseq_rev_drop_many list_emb_append_mono)
qed

lemma deduplicate_pair:
  assumes "dict_get r1 t = dict_get r2 t" and "dict_get r1 u = dict_get r2 u"
  shows "deduplicate [r1, r2] [t, u] = [r1]"
proof -
  have "generate_id r1 [t, u] = generate_id r2 [t, u]"
    using assms by (intro generate_id_cong) (auto simp: dict_get_def)
  then show ?thesis
    by (simp add: deduplicate_def dedup_step_def Let_def)
qed

text \<open>
  C4 at a concrete record with the key fields \<^verbatim>\<open>title\<close> and \<^verbatim>\<open>url\<close>: its fields permuted, a
  \<^verbatim>\<open>price\<close> added, and a second record with the same key fields.
\<close>

theorem generate_id_invariant_witness:
  "generate_id [(ascii ''url'', JStr (ascii ''u'')), (ascii ''description'', JStr (ascii ''x'')),
                (ascii ''title'', JStr (ascii ''A''))] [ascii ''title'', ascii ''url'']
     = generate_id [(ascii ''title'', JStr (ascii ''A'')), (ascii ''url'', JStr (ascii ''u'')),
                (ascii ''description'', JStr (ascii ''x''))] [ascii ''title'', ascii ''url'']
   \<and> generate_id (dict_set [(ascii ''title'', JStr (ascii ''A'')), (ascii ''url'', JStr (ascii ''u'')),
                (ascii ''description'', JStr (ascii ''x''))] (ascii ''price'') (JStr (ascii ''$1'')))
         [ascii ''title'', ascii ''url'']
     = generate_id [(ascii ''title'', JStr (ascii ''A'')), (ascii ''url'', JStr (ascii ''u'')),
                (ascii ''description'', JStr (ascii ''x''))] [ascii ''title'', ascii ''url'']
   \<and> generate_id [(ascii ''title'', JStr (ascii ''A'')), (ascii ''url'', JStr (ascii ''u'')),
                (ascii ''description'', JStr (ascii ''x''))] [ascii ''title'', ascii ''url'']
     = generate_id [(ascii ''url'', JStr (ascii ''u'')), (ascii ''title'', JStr (ascii ''A''))]
         [ascii ''title'', ascii ''url'']"
  using generate_id_invariant
    [where r = "[(ascii ''title'', JStr (ascii ''A'')), (ascii ''url'', JStr (ascii ''u'')),
                 (ascii ''description'', JStr (ascii ''x''))]"
       and r' = "[(ascii ''url'', JStr (ascii ''u'')), (ascii ''description'', JStr (ascii ''x'')),
                  (ascii ''title'', JStr (ascii ''A''))]"
       and k = "ascii ''price''" and K = "[ascii ''title'', ascii ''url'']"
       and v = "JStr (ascii ''$1'')"
       and ?r1.0 = "[(ascii ''title'', JStr (ascii ''A'')), (ascii ''url'', JStr (ascii ''u'')),
                 (ascii ''description'', JStr (ascii ''x''))]"
       and ?r2.0 = "[(ascii ''url'', JStr (ascii ''u'')), (ascii ''title'', JStr (ascii ''A''))]"]
  by (simp add: is_dict_def dict_get_def ascii_def)

subsection \<open>Evaluating the identity\<close>

lemma replicate_numeral: "replicate (numeral k) x = x # replicate (pred_numeral k) x"
  by (simp add: numeral_eq_Suc)

lemmas md5_eval = md5_hexdigest_def md5_pad_def md5_block_def le_bytes_def hex_byte_def
  hex_digit_def round1_def round2_def round3_def round4_def md5_F_def md5_G_def md5_H_def
  md5_I_def rotl32_def add32_def not32_def replicate_numeral

lemmas json_eval = key_data_def dict_has_def dict_get_def encode_str_def escape_char_def
  utf8_encode_def utf8_char_def ascii_def

lemma key_str_title:
  "utf8_encode (json_dumps (JDict (key_data [(ascii ''title'', JStr (ascii ''A''))]
      [ascii ''title'', ascii ''url'']))) = ascii ''{\"title\": \"A\"}''"
  by (simp add: json_eval)

lemma key_str_title_url:
  "utf8_encode (json_dumps (JDict (key_data
      [(ascii ''title'', JStr (ascii ''A'')), (ascii ''url'', JStr (ascii ''u''))]
      [ascii ''title'', ascii ''url'']))) = ascii ''{\"title\": \"A\", \"url\": \"u\"}''"
  by (simp add: json_eval)

lemma md5_title:
  "md5_hexdigest (ascii ''{\"title\": \"A\"}'') = ascii ''28f0d5cb2735cafa4661a71a4817bacb''"
  by (simp add: md5_eval ascii_def)

lemma md5_title_url:
  "md5_hexdigest (ascii ''{\"title\": \"A\", \"url\": \"u\"}'')
     = ascii ''9a4b2c1d6db9362b3c9baf5291cec824''"
  by (simp add: md5_eval ascii_def)

text \<open>
  C4 as the specification states it fails. With the key fields \<^verbatim>\<open>title\<close> and \<^verbatim>\<open>url\<close>, the
  records \<^verbatim>\<open>{"title": "A"}\<close> and \<^verbatim>\<open>{"title": "A", "url": "u"}\<close> have identical values for
  the one key field present in both, and different identities: a key field that a record
  lacks is left out of what is hashed.
\<close>

theorem generate_id_shared_counterexample:
  "spec_same_shared_key_values [(ascii ''title'', JStr (ascii ''A''))]
      [(ascii ''title'', JStr (ascii ''A'')), (ascii ''url'', JStr (ascii ''u''))]
      [ascii ''title'', ascii ''url'']
   \<and> generate_id [(ascii ''title'', JStr (ascii ''A''))] [ascii ''title'', ascii ''url'']
       = ascii ''28f0d5cb2735cafa4661a71a4817bacb''
   \<and> generate_id [(ascii ''title'', JStr (ascii ''A'')), (ascii ''url'', JStr (ascii ''u''))]
         [ascii ''title'', ascii ''url'']
       = ascii ''9a4b2c1d6db9362b3c9baf5291cec824''"
proof -
  have "spec_same_shared_key_values [(ascii ''title'', JStr (ascii ''A''))]
      [(ascii ''title'', JStr (ascii ''A'')), (ascii ''url'', JStr (ascii ''u''))]
      [ascii ''title'', ascii ''url'']"
    by (simp add: spec_same_shared_key_values_def dict_has_def dict_get_def ascii_def)
  moreover have "generate_id [(ascii ''title'', JStr (ascii ''A''))] [ascii ''title'', ascii ''url'']
       = ascii ''28f0d5cb2735cafa4661a71a4817bacb''"
    unfolding generate_id_def Let_def key_str_title md5_title by (rule refl)
  moreover have "generate_id [(ascii ''title'', JStr (ascii ''A'')), (ascii ''url'', JStr (ascii ''u''))]
         [ascii ''title'', ascii ''url'']
       = ascii ''9a4b2c1d6db9362b3c9baf5291cec824''"
    unfolding generate_id_def Let_def key_str_title_url md5_title_url by (rule refl)
  ultimately show ?thesis by blast
qed

text \<open>
  C5. For every list of records and every key-field list, \<open>deduplicate\<close> returns the
  records at exactly those positions that no earlier record shares its identity with, in
  the order of the input: the first record of each distinct identity, a subsequence of
  the input. Of two records with the same values for \<^verbatim>\<open>title\<close> and \<^verbatim>\<open>url\<close> the first one
  alone is kept, whatever else they hold.
\<close>

theorem deduplicate_first_per_identity:
  "deduplicate rs K =
     map (\<lambda>i. rs ! i)
       (filter (\<lambda>i. list_all (\<lambda>j. generate_id (rs ! j) K \<noteq> generate_id (rs ! i) K) [0..<i])
          [0..<length rs])
   \<and> subseq (deduplicate rs K) rs
   \<and> (dict_get r1 (ascii ''title'') = dict_get r2 (ascii ''title'')
        \<and> dict_get r1 (ascii ''url'') = dict_get r2 (ascii ''url'')
      \<longrightarrow> deduplicate [r1, r2] [ascii ''title'', ascii ''url''] = [r1])"
  using deduplicate_index [of rs K] deduplicate_subseq [of rs K]
    deduplicate_pair [of r1 "ascii ''title''" r2 "ascii ''url''"]
  by blast

text \<open>C5 at two records that differ in their descriptions only.\<close>

theorem deduplicate_first_per_identity_witness:
  "deduplicate
     [[(ascii ''title'', JStr (ascii ''A'')), (ascii ''url'', JStr (ascii ''u'')),
       (ascii ''description'', JStr (ascii ''first''))],
      [(ascii ''title'', JStr (ascii ''A'')), (ascii ''url'', JStr (ascii ''u'')),
       (ascii ''description'', JStr (ascii ''second''))]]
     [ascii ''title'', ascii ''url'']
   = [[(ascii ''title'', JStr (ascii ''A'')), (ascii ''url'', JStr (ascii ''u'')),
       (ascii ''description'', JStr (ascii ''first''))]]"
  using deduplicate_first_per_identity
    [where ?r1.0 = "[(ascii ''title'', JStr (ascii ''A'')), (ascii ''url'', JStr (ascii ''u'')),
                     (ascii ''description'', JStr (ascii ''first''))]"
       and ?r2.0 = "[(ascii ''title'', JStr (ascii ''A'')), (ascii ''url'', JStr (ascii ''u'')),
                     (ascii ''description'', JStr (ascii ''second''))]"
       and rs = "[]" and K = "[]"]
  by (simp add: dict_get_def ascii_def)

section \<open>Properties of the change detector\<close>

lemma keys_dict_set: "fst ` set (dict_set d k v) = insert k (fst ` set d)"
proof -
  have "fst ` set (dict_set d k v) = dom (map_of (dict_set d k v))"
    by (simp add: dom_map_of_conv_image_fst)
  also have "\<dots> = insert k (dom (map_of d))"
    by (simp add: map_of_dict_set)
  finally show ?thesis by (simp add: dom_map_of_conv_image_fst)
qed

lemma distinct_dict_set: "distinct (map fst d) \<Longrightarrow> distinct (map fst (dict_set d k v))"
proof (induction d)
  case Nil
  show ?case by simp
next
  case (Cons a d)
  have "fst ` set (dict_set d k v) = insert k (fst ` set d)" by (rule keys_dict_set)
  with Cons show ?case by (cases a) auto
qed

lemma set_dict_set: "set (dict_set d k v) \<subseteq> insert (k, v) (set d)"
  by (induction d) (auto split: if_splits)

lemma current_ids_snoc:
  "current_ids_of f (rs @ [r]) = dict_set (current_ids_of f rs) (generate_id r f) r"
  by (simp add: current_ids_of_def)

lemma current_ids_keys: "fst ` set (current_ids_of f rs) = (\<lambda>r. generate_id r f) ` set rs"
proof (induction rs rule: rev_induct)
  case Nil
  show ?case by (simp add: current_ids_of_def)
next
  case (snoc r rs)
  then show ?case by (simp add: current_ids_snoc keys_dict_set)
qed

lemma current_ids_entries:
  "(i, r) \<in> set (current_ids_of f rs) \<Longrightarrow> generate_id r f = i"
proof (induction rs rule: rev_induct)
  case Nil
  then show ?case by (simp add: current_ids_of_def)
next
  case (snoc x rs)
  from snoc.prems set_dict_set [of "current_ids_of f rs" "generate_id x f" x]
  have "(i, r) = (generate_id x f, x) \<or> (i, r) \<in> set (current_ids_of f rs)"
    by (auto simp: current_ids_snoc)
  with snoc.IH show ?case by auto
qed

lemma dict_index_key:
  assumes "k \<in> fst ` set d"
  shows "\<exists>v. dict_index d k = Inr v \<and> (k, v) \<in> set d"
proof -
  from assms have "map_of d k \<noteq> None" by (simp add: map_of_eq_None_iff)
  then obtain v where v: "map_of d k = Some v" by auto
  then have "(k, v) \<in> set d" by (rule map_of_SomeD)
  with v show ?thesis by (simp add: dict_index_def)
qed

lemma index_all_keys:
  "set ks \<subseteq> fst ` set d \<Longrightarrow> \<exists>vs. index_all d ks = Inr vs \<and> list_all2 (\<lambda>k v. (k, v) \<in> set d) ks vs"
proof (induction ks)
  case Nil
  show ?case by simp
next
  case (Cons k ks)
  then obtain vs where vs: "index_all d ks = Inr vs" "list_all2 (\<lambda>k v. (k, v) \<in> set d) ks vs"
    by auto
  from Cons.prems obtain v where v: "dict_index d k = Inr v" "(k, v) \<in> set d"
    using dict_index_key [of k d] by auto
  from vs v show ?case by simp
qed

lemma updated_loop_keys:
  "set ks \<subseteq> fst ` set d \<Longrightarrow>
     \<exists>us. updated_loop f d prs ks = Inr us \<and> upd_id ` set us \<subseteq> set ks"
proof (induction ks)
  case Nil
  show ?case by simp
next
  case (Cons k ks)
  then obtain us where us: "updated_loop f d prs ks = Inr us" "upd_id ` set us \<subseteq> set ks"
    by auto
  from Cons.prems obtain v where v: "dict_index d k = Inr v"
    using dict_index_key [of k d] by auto
  from us v show ?case
    by (auto simp: Let_def split: option.splits)
qed

lemma diff_category_props:
  "\<exists>n r u. diff_category f crs prs stored = Inr (n, r, u)
     \<and> (\<lambda>x. generate_id x f) ` set n
         = (\<lambda>x. generate_id x f) ` set crs - set (prev_ids_set_of f prs stored)
     \<and> set r = set (prev_ids_set_of f prs stored) - (\<lambda>x. generate_id x f) ` set crs
     \<and> upd_id ` set u \<subseteq> (\<lambda>x. generate_id x f) ` set crs \<inter> set (prev_ids_set_of f prs stored)"
proof -
  let ?d = "current_ids_of f crs"
  let ?P = "prev_ids_set_of f prs stored"
  let ?new = "filter (\<lambda>i. i \<notin> set ?P) (map fst ?d)"
  let ?common = "filter (\<lambda>i. i \<in> set ?P) (map fst ?d)"
  have keys: "set (map fst ?d) = (\<lambda>x. generate_id x f) ` set crs"
    using current_ids_keys [of f crs] by simp
  obtain n where n: "index_all ?d ?new = Inr n" "list_all2 (\<lambda>k v. (k, v) \<in> set ?d) ?new n"
    using index_all_keys [of ?new ?d] by auto
  obtain u where u: "updated_loop f ?d prs ?common = Inr u" "upd_id ` set u \<subseteq> set ?common"
    using updated_loop_keys [of ?common ?d f prs] by auto
  from n(2) have "list_all2 (\<lambda>k v. generate_id v f = k) ?new n"
    by (rule list_all2_mono) (auto dest: current_ids_entries)
  then have "map (\<lambda>x. generate_id x f) n = ?new"
    by (induction rule: list_all2_induct) auto
  then have "(\<lambda>x. generate_id x f) ` set n = set ?new" by (metis set_map)
  with keys have N: "(\<lambda>x. generate_id x f) ` set n = (\<lambda>x. generate_id x f) ` set crs - set ?P"
    by auto
  have R: "set (filter (\<lambda>i. i \<notin> set (map fst ?d)) ?P) = set ?P - (\<lambda>x. generate_id x f) ` set crs"
    using keys by auto
  have U: "upd_id ` set u \<subseteq> (\<lambda>x. generate_id x f) ` set crs \<inter> set ?P"
    using u(2) keys by auto
  have "diff_category f crs prs stored = Inr (n, filter (\<lambda>i. i \<notin> set (map fst ?d)) ?P, u)"
    using n(1) u(1) by (simp add: diff_category_def Let_def)
  with N R U show ?thesis by blast
qed

lemma diff_category_total: "\<exists>n r u. diff_category f crs prs stored = Inr (n, r, u)"
proof -
  from diff_category_props [of f crs prs stored]
  obtain n where "\<exists>r u. diff_category f crs prs stored = Inr (n, r, u)
     \<and> (\<lambda>x. generate_id x f) ` set n
         = (\<lambda>x. generate_id x f) ` set crs - set (prev_ids_set_of f prs stored)
     \<and> set r = set (prev_ids_set_of f prs stored) - (\<lambda>x. generate_id x f) ` set crs
     \<and> upd_id ` set u \<subseteq> (\<lambda>x. generate_id x f) ` set crs \<inter> set (prev_ids_set_of f prs stored)" ..
  then obtain r where "\<exists>u. diff_category f crs prs stored = Inr (n, r, u)
     \<and> (\<lambda>x. generate_id x f) ` set n
         = (\<lambda>x. generate_id x f) ` set crs - set (prev_ids_set_of f prs stored)
     \<and> set r = set (prev_ids_set_of f prs stored) - (\<lambda>x. generate_id x f) ` set crs
     \<and> upd_id ` set u \<subseteq> (\<lambda>x. generate_id x f) ` set crs \<inter> set (prev_ids_set_of f prs stored)" ..
  then obtain u where "diff_category f crs prs stored = Inr (n, r, u)
     \<and> (\<lambda>x. generate_id x f) ` set n
         = (\<lambda>x. generate_id x f) ` set crs - set (prev_ids_set_of f prs stored)
     \<and> set r = set (prev_ids_set_of f prs stored) - (\<lambda>x. generate_id x f) ` set crs
     \<and> upd_id ` set u \<subseteq> (\<lambda>x. generate_id x f) ` set crs \<inter> set (prev_ids_set_of f prs stored)" ..
  then have "diff_category f crs prs stored = Inr (n, r, u)" by (rule conjunct1)
  then show ?thesis by (intro exI)
qed

lemma names_distinct:
  "ascii ''products'' \<noteq> ascii ''images''" "ascii ''products'' \<noteq> ascii ''assets''"
  "ascii ''images'' \<noteq> ascii ''assets''" "ascii ''images'' \<noteq> ascii ''products''"
  "ascii ''assets'' \<noteq> ascii ''products''" "ascii ''assets'' \<noteq> ascii ''images''"
  by (simp_all add: ascii_def)

lemma list_category_set:
  "dt' \<in> set data_types \<Longrightarrow>
     list_category (set_list_category res dt' n) dt = (if dt = dt' then Some n else list_category res dt)"
  by (auto simp: list_category_def set_list_category_def data_types_def names_distinct)

lemma view_update:
  "dt' \<in> set data_types \<Longrightarrow>
     view (c\<lparr>new := set_list_category (new c) dt' n, removed := dict_set (removed c) dt' r,
             updated := dict_set (updated c) dt' u\<rparr>) dt
       = (if dt = dt' then (Some n, Some r, Some u) else view c dt)"
  by (simp add: view_def list_category_set dict_get_def map_of_dict_set)

lemma detect_step_view:
  assumes "dt' \<in> set data_types"
  shows "\<exists>c'. detect_step kf cur prev (Inr c) dt' = Inr c'
           \<and> (dt \<noteq> dt' \<longrightarrow> view c' dt = view c dt)
           \<and> (\<forall>crs f. dt = dt' \<and> list_category cur dt = Some crs \<and> dict_get kf dt = Some f \<longrightarrow>
                 (\<exists>n r u. diff_category f crs (previous_records_of prev dt) (stored_ids_of prev dt)
                             = Inr (n, r, u)
                          \<and> view c' dt = (Some n, Some r, Some u)))"
proof (cases "list_category cur dt' = None \<or> dict_get kf dt' = None")
  case True
  then have st: "detect_step kf cur prev (Inr c) dt' = Inr c"
    by (auto simp: detect_step_def Let_def split: option.splits)
  show ?thesis
  proof (intro exI [of _ c] conjI allI impI)
    show "detect_step kf cur prev (Inr c) dt' = Inr c" by (rule st)
    show "view c dt = view c dt" by (rule refl)
    fix crs' f'
    assume h: "dt = dt' \<and> list_category cur dt = Some crs' \<and> dict_get kf dt = Some f'"
    then have e: "dt = dt'" by (rule conjunct1)
    from h have "list_category cur dt' = Some crs'" "dict_get kf dt' = Some f'"
      unfolding e by (rule conjunct1 [OF conjunct2], rule conjunct2 [OF conjunct2])
    with True have False by simp
    then show "\<exists>n r u. diff_category f' crs' (previous_records_of prev dt) (stored_ids_of prev dt)
                       = Inr (n, r, u) \<and> view c dt = (Some n, Some r, Some u)" by (rule FalseE)
  qed
next
  case False
  then obtain crs f where crs: "list_category cur dt' = Some crs" and f: "dict_get kf dt' = Some f"
    by auto
  obtain n r u where d:
    "diff_category f crs (previous_records_of prev dt') (stored_ids_of prev dt') = Inr (n, r, u)"
    using diff_category_total [of f crs "previous_records_of prev dt'" "stored_ids_of prev dt'"]
    by blast
  let ?c' = "c\<lparr>new := set_list_category (new c) dt' n,
                removed := dict_set (removed c) dt' r,
                updated := dict_set (updated c) dt' u\<rparr>"
  have step: "detect_step kf cur prev (Inr c) dt' = Inr ?c'"
    unfolding detect_step_def Let_def by (simp add: crs f d)
  have v: "view ?c' dt = (if dt = dt' then (Some n, Some r, Some u) else view c dt)"
    using assms by (rule view_update)
  show ?thesis
  proof (intro exI [of _ ?c'] conjI allI impI)
    show "detect_step kf cur prev (Inr c) dt' = Inr ?c'" by (rule step)
    show "view ?c' dt = view c dt" if "dt \<noteq> dt'" using that v by simp
    fix crs' f'
    assume h: "dt = dt' \<and> list_category cur dt = Some crs' \<and> dict_get kf dt = Some f'"
    then have e: "dt = dt'" by (rule conjunct1)
    from h have "list_category cur dt' = Some crs'" "dict_get kf dt' = Some f'"
      unfolding e by (rule conjunct1 [OF conjunct2], rule conjunct2 [OF conjunct2])
    with crs f have e2: "crs' = crs" "f' = f" by simp_all
    have "view ?c' dt' = (Some n, Some r, Some u)" using v unfolding e by simp
    with d show "\<exists>n r u. diff_category f' crs' (previous_records_of prev dt) (stored_ids_of prev dt)
                       = Inr (n, r, u) \<and> view ?c' dt = (Some n, Some r, Some u)"
      unfolding e e2 by blast
  qed
qed

lemma detect_changes_view:
  assumes "dt \<in> set data_types" and "list_category cur dt = Some crs"
    and "dict_get (effective_key_fields kf) dt = Some f"
  shows "\<exists>cs n r u. detect_changes cur (Some prev) kf = Inr cs
           \<and> diff_category f crs (previous_records_of prev dt) (stored_ids_of prev dt) = Inr (n, r, u)
           \<and> view cs dt = (Some n, Some r, Some u)"
proof -
  let ?k = "effective_key_fields kf"
  let ?c0 = "\<lparr>new = empty_result, updated = [], removed = []\<rparr>"
  have p: "ascii ''products'' \<in> set data_types" and i: "ascii ''images'' \<in> set data_types"
    and a: "ascii ''assets'' \<in> set data_types"
    by (simp_all add: data_types_def)
  obtain c1 where c1: "detect_step ?k cur prev (Inr ?c0) (ascii ''products'') = Inr c1"
    and c1o: "dt \<noteq> ascii ''products'' \<longrightarrow> view c1 dt = view ?c0 dt"
    and c1s: "\<forall>crs f. dt = ascii ''products'' \<and> list_category cur dt = Some crs \<and> dict_get ?k dt = Some f \<longrightarrow>
                 (\<exists>n r u. diff_category f crs (previous_records_of prev dt) (stored_ids_of prev dt)
                             = Inr (n, r, u) \<and> view c1 dt = (Some n, Some r, Some u))"
    using detect_step_view [OF p, of ?k cur prev ?c0 dt] by blast
  obtain c2 where c2: "detect_step ?k cur prev (Inr c1) (ascii ''images'') = Inr c2"
    and c2o: "dt \<noteq> ascii ''images'' \<longrightarrow> view c2 dt = view c1 dt"
    and c2s: "\<forall>crs f. dt = ascii ''images'' \<and> list_category cur dt = Some crs \<and> dict_get ?k dt = Some f \<longrightarrow>
                 (\<exists>n r u. diff_category f crs (previous_records_of prev dt) (stored_ids_of prev dt)
                             = Inr (n, r, u) \<and> view c2 dt = (Some n, Some r, Some u))"
    using detect_step_view [OF i, of ?k cur prev c1 dt] by blast
  obtain c3 where c3: "detect_step ?k cur prev (Inr c2) (ascii ''assets'') = Inr c3"
    and c3o: "dt \<noteq> ascii ''assets'' \<longrightarrow> view c3 dt = view c2 dt"
    and c3s: "\<forall>crs f. dt = ascii ''assets'' \<and> list_category cur dt = Some crs \<and> dict_get ?k dt = Some f \<longrightarrow>
                 (\<exists>n r u. diff_category f crs (previous_records_of prev dt) (stored_ids_of prev dt)
                             = Inr (n, r, u) \<and> view c3 dt = (Some n, Some r, Some u))"
    using detect_step_view [OF a, of ?k cur prev c2 dt] by blast
  have res: "detect_changes cur (Some prev) kf = Inr c3"
    using c1 c2 c3 by (simp add: detect_changes_def data_types_def)
  from assms(1) consider "dt = ascii ''products''" | "dt = ascii ''images''" | "dt = ascii ''assets''"
    by (auto simp: data_types_def)
  then have "\<exists>n r u. diff_category f crs (previous_records_of prev dt) (stored_ids_of prev dt) = Inr (n, r, u)
                \<and> view c3 dt = (Some n, Some r, Some u)"
  proof cases
    case 1
    with c1s assms obtain n r u where
      "diff_category f crs (previous_records_of prev dt) (stored_ids_of prev dt) = Inr (n, r, u)"
      "view c1 dt = (Some n, Some r, Some u)" by blast
    moreover have "view c3 dt = view c1 dt" using 1 c2o c3o names_distinct by simp
    ultimately show ?thesis by simp
  next
    case 2
    with c2s assms obtain n r u where
      "diff_category f crs (previous_records_of prev dt) (stored_ids_of prev dt) = Inr (n, r, u)"
      "view c2 dt = (Some n, Some r, Some u)" by blast
    moreover have "view c3 dt = view c2 dt" using 2 c3o names_distinct by simp
    ultimately show ?thesis by simp
  next
    case 3
    with c3s assms show ?thesis by blast
  qed
  with res show ?thesis by blast
qed

lemma diff_category_result:
  assumes "diff_category f crs prs stored = Inr (n, r, u)"
  shows "(\<lambda>x. generate_id x f) ` set n
           = (\<lambda>x. generate_id x f) ` set crs - set (prev_ids_set_of f prs stored)"
    and "set r = set (prev_ids_set_of f prs stored) - (\<lambda>x. generate_id x f) ` set crs"
    and "upd_id ` set u \<subseteq> (\<lambda>x. generate_id x f) ` set crs \<inter> set (prev_ids_set_of f prs stored)"
proof -
  from diff_category_props [of f crs prs stored]
  obtain n' r' u' where p: "diff_category f crs prs stored = Inr (n', r', u')
     \<and> (\<lambda>x. generate_id x f) ` set n'
         = (\<lambda>x. generate_id x f) ` set crs - set (prev_ids_set_of f prs stored)
     \<and> set r' = set (prev_ids_set_of f prs stored) - (\<lambda>x. generate_id x f) ` set crs
     \<and> upd_id ` set u' \<subseteq> (\<lambda>x. generate_id x f) ` set crs \<inter> set (prev_ids_set_of f prs stored)"
    by (elim exE)
  from p assms have e: "n' = n" "r' = r" "u' = u" by simp_all
  from p show "(\<lambda>x. generate_id x f) ` set n
           = (\<lambda>x. generate_id x f) ` set crs - set (prev_ids_set_of f prs stored)"
    unfolding e by (rule conjunct1 [OF conjunct2])
  from p show "set r = set (prev_ids_set_of f prs stored) - (\<lambda>x. generate_id x f) ` set crs"
    unfolding e by (rule conjunct1 [OF conjunct2 [OF conjunct2]])
  from p show "upd_id ` set u \<subseteq> (\<lambda>x. generate_id x f) ` set crs \<inter> set (prev_ids_set_of f prs stored)"
    unfolding e by (rule conjunct2 [OF conjunct2 [OF conjunct2]])
qed

text \<open>
  C10. Whenever a previous snapshot is given, change detection returns a change set, and
  for every category that it diffs (one of \<^verbatim>\<open>products\<close>, \<^verbatim>\<open>images\<close>, \<^verbatim>\<open>assets\<close> that the
  current result and the key-field map both have) the identities of the new records,
  the identities of the updated entries and the removed identities are pairwise disjoint;
  no new identity is in the previous identity set, no removed identity is in the current
  identity set, and every updated identity is in both.
\<close>

theorem detect_changes_disjoint:
  assumes "dt \<in> set data_types" and "list_category current dt = Some current_records"
    and "dict_get (effective_key_fields key_fields) dt = Some f"
  shows "\<exists>cs n r u.
           detect_changes current (Some previous) key_fields = Inr cs
         \<and> list_category (new cs) dt = Some n
         \<and> dict_get (removed cs) dt = Some r
         \<and> dict_get (updated cs) dt = Some u
         \<and> (let N = (\<lambda>x. generate_id x f) ` set n; R = set r; U = upd_id ` set u;
                 P = set (prev_ids_set_of f (previous_records_of previous dt)
                            (stored_ids_of previous dt));
                 C = (\<lambda>x. generate_id x f) ` set current_records
             in N \<inter> U = {} \<and> N \<inter> R = {} \<and> U \<inter> R = {} \<and> N \<inter> P = {} \<and> R \<inter> C = {}
                \<and> U \<subseteq> P \<inter> C)"
proof -
  from detect_changes_view [OF assms, of previous]
  obtain cs n r u where res: "detect_changes current (Some previous) key_fields = Inr cs"
    and d: "diff_category f current_records (previous_records_of previous dt)
              (stored_ids_of previous dt) = Inr (n, r, u)"
    and v: "view cs dt = (Some n, Some r, Some u)"
    by blast
  note p = diff_category_result [OF d]
  have "(let N = (\<lambda>x. generate_id x f) ` set n; R = set r; U = upd_id ` set u;
                 P = set (prev_ids_set_of f (previous_records_of previous dt)
                            (stored_ids_of previous dt));
                 C = (\<lambda>x. generate_id x f) ` set current_records
             in N \<inter> U = {} \<and> N \<inter> R = {} \<and> U \<inter> R = {} \<and> N \<inter> P = {} \<and> R \<inter> C = {}
                \<and> U \<subseteq> P \<inter> C)"
    unfolding Let_def p(1) p(2) using p(3) by auto
  moreover from v have "list_category (new cs) dt = Some n" "dict_get (removed cs) dt = Some r"
    "dict_get (updated cs) dt = Some u" by (simp_all add: view_def)
  ultimately show ?thesis using res by blast
qed

text \<open>C10 at the example of the specification, with the default key fields.\<close>

theorem detect_changes_disjoint_witness:
  "\<exists>cs n r u.
     detect_changes example_current (Some example_previous) None = Inr cs
   \<and> list_category (new cs) (ascii ''products'') = Some n
   \<and> dict_get (removed cs) (ascii ''products'') = Some r
   \<and> dict_get (updated cs) (ascii ''products'') = Some u
   \<and> (let N = (\<lambda>x. generate_id x [ascii ''title'', ascii ''url'']) ` set n; R = set r;
           U = upd_id ` set u;
           P = set (prev_ids_set_of [ascii ''title'', ascii ''url'']
                      (previous_records_of example_previous (ascii ''products''))
                      (stored_ids_of example_previous (ascii ''products'')));
           C = (\<lambda>x. generate_id x [ascii ''title'', ascii ''url'']) ` set [product_A', product_C]
       in N \<inter> U = {} \<and> N \<inter> R = {} \<and> U \<inter> R = {} \<and> N \<inter> P = {} \<and> R \<inter> C = {}
          \<and> U \<subseteq> P \<inter> C)"
proof -
  have h1: "ascii ''products'' \<in> set data_types" by (simp add: data_types_def)
  have h2: "list_category example_current (ascii ''products'') = Some [product_A', product_C]"
    by (simp add: list_category_def example_current_def)
  have h3: "dict_get (effective_key_fields None) (ascii ''products'')
              = Some [ascii ''title'', ascii ''url'']"
    by (simp add: effective_key_fields_def default_key_fields_def dict_get_def)
  show ?thesis by (rule detect_changes_disjoint [OF h1 h2 h3])
qed

text \<open>
  C6. Without a previous snapshot change detection returns the whole current result as
  new and nothing as updated or removed; it is a normal return, not an error.
\<close>

theorem detect_changes_no_previous:
  "detect_changes current None key_fields = Inr \<lparr>new = current, updated = [], removed = []\<rparr>"
  by (simp add: detect_changes_def)

end
